(* ===== verification/Prelude.thy ===== *)
theory Prelude
  imports Main "HOL-Library.Sublist" "HOL-Library.Word"
begin

text \<open>
  Shared vocabulary of the development: the exception values raised by
  \<open>src/app.py\<close> and by the library calls it makes, paths as strings, the
  exception-propagating sequencing of stateful steps (\<open>bind_res\<close>), the
  decimal rendering of counters used to name temporary directories, and generic
  lemmas on lists that the component theories share.
\<close>

named_theorems res_simps "equations that evaluate the exception-propagating state steps"

type_synonym path = string
type_synonym bytes = "8 word list"

text \<open>The Python exceptions that reach the caller of \<open>convert_pdf_to_word\<close>.\<close>

datatype py_error =
    ValueError string
  | FileNotFoundError path
  | SameFileError path path
  | IndexError string
  | ConverterError string
  | DocxError string
  | PdfError string

text \<open>
  A stateful Python step that may raise: it returns either the exception
  (\<open>Inl\<close>) or its value (\<open>Inr\<close>), together with the state as it is at that
  point; an exception keeps the effects performed before it.
\<close>

type_synonym ('s, 'a) res = "'s \<Rightarrow> (py_error + 'a) \<times> 's"

definition ret :: "'a \<Rightarrow> ('s, 'a) res" where
  "ret a s = (Inr a, s)"

definition raise :: "py_error \<Rightarrow> ('s, 'a) res" where
  "raise e s = (Inl e, s)"

definition bind_res :: "('s, 'a) res \<Rightarrow> ('a \<Rightarrow> ('s, 'b) res) \<Rightarrow> ('s, 'b) res" where
  "bind_res m f s = (case m s of (Inl e, s') \<Rightarrow> (Inl e, s') | (Inr a, s') \<Rightarrow> f a s')"

subsection \<open>Decimal names and first occurrences\<close>

definition digit_chars :: string where
  "digit_chars = ''0123456789''"

fun nat_str :: "nat \<Rightarrow> string" where
  "nat_str n = (if n < 10 then [digit_chars ! n]
                else nat_str (n div 10) @ [digit_chars ! (n mod 10)])"

text \<open>Duplicate removal that keeps the first occurrence of each element.\<close>

definition remdups_first :: "'a list \<Rightarrow> 'a list" where
  "remdups_first xs = rev (remdups (rev xs))"

declare nat_str.simps [simp del]

subsection \<open>Sequencing\<close>

lemma bind_res_ret [res_simps]: "bind_res (ret a) f s = f a s"
  by (simp add: bind_res_def ret_def)

lemma bind_res_raise [res_simps]: "bind_res (raise e) f s = (Inl e, s)"
  by (simp add: bind_res_def raise_def)

lemma bind_res_Inl [res_simps]: "m s = (Inl e, s') \<Longrightarrow> bind_res m f s = (Inl e, s')"
  by (simp add: bind_res_def)

lemma bind_res_Inr [res_simps]: "m s = (Inr a, s') \<Longrightarrow> bind_res m f s = f a s'"
  by (simp add: bind_res_def)

text \<open>
  A relation between the state before and after a step that every part of a
  sequence establishes, and that composes, holds of the whole sequence; an
  exception stops the sequence without breaking it.
\<close>

lemma bind_res_trans:
  fixes m :: "('s, 'a) res" and f :: "'a \<Rightarrow> ('s, 'b) res"
  assumes m: "\<And>s. R s (snd (m s))" and f: "\<And>a s. R s (snd (f a s))"
    and trans: "\<And>x y z. R x y \<Longrightarrow> R y z \<Longrightarrow> R x z"
  shows "R s (snd (bind_res m f s))"
proof -
  obtain r s1 where ms: "m s = (r, s1)" by fastforce
  have r1: "R s s1" using m [of s] ms by simp
  show ?thesis
  proof (cases r)
    case (Inl e)
    then show ?thesis using ms r1 by (simp add: bind_res_def)
  next
    case (Inr a)
    then show ?thesis using ms trans [OF r1 f] by (simp add: bind_res_def)
  qed
qed

lemma bind_res_preserves:
  assumes "\<And>s. P s \<Longrightarrow> P (snd (m s))" and "\<And>a s. P s \<Longrightarrow> P (snd (f a s))" and "P s"
  shows "P (snd (bind_res m f s))"
  using bind_res_trans [where R = "\<lambda>s s'. P s \<longrightarrow> P s'" and m = m and f = f and s = s] assms by blast

lemma snd_ret [simp]: "snd (ret a s) = s" and snd_raise [simp]: "snd (raise e s) = s"
  by (simp_all add: ret_def raise_def)

subsection \<open>Decimal rendering of counters\<close>

lemma digit_char_inj:
  fixes a b :: nat
  assumes "a < 10" "b < 10" "digit_chars ! a = digit_chars ! b"
  shows "a = b"
proof -
  have "distinct digit_chars" "length digit_chars = 10" by (simp_all add: digit_chars_def)
  with assms show ?thesis by (simp add: nth_eq_iff_index_eq)
qed

lemma nat_str_not_Nil [simp]: "nat_str n \<noteq> []"
  by (subst nat_str.simps) simp

lemma length_nat_str_1: "length (nat_str n) = 1 \<longleftrightarrow> n < 10"
proof (induction n rule: nat_str.induct)
  case (1 n)
  show ?case
    using "1" by (subst nat_str.simps) (auto simp: Suc_le_eq)
qed

lemma nat_str_inj: "nat_str n = nat_str m \<Longrightarrow> n = m"
proof (induction n arbitrary: m rule: nat_str.induct)
  case (1 n)
  show ?case
  proof (cases "n < 10")
    case True
    then have "length (nat_str m) = 1" using "1.prems" length_nat_str_1 by metis
    then have m: "m < 10" using length_nat_str_1 by blast
    with True "1.prems" show ?thesis
      by (simp add: nat_str.simps [of n] nat_str.simps [of m] digit_char_inj)
  next
    case False
    then have "length (nat_str m) \<noteq> 1" using "1.prems" length_nat_str_1 by metis
    then have m: "\<not> m < 10" using length_nat_str_1 by blast
    from False m "1.prems" have
      "nat_str (n div 10) = nat_str (m div 10)"
      "digit_chars ! (n mod 10) = digit_chars ! (m mod 10)"
      by (simp_all add: nat_str.simps [of n] nat_str.simps [of m])
    then have "n div 10 = m div 10" "n mod 10 = m mod 10"
      using "1.IH" False digit_char_inj [of "n mod 10" "m mod 10"] by auto
    then show ?thesis by (metis div_mult_mod_eq)
  qed
qed

lemma nat_str_chars: "c \<in> set (nat_str n) \<Longrightarrow> c \<in> set digit_chars"
proof (induction n rule: nat_str.induct)
  case (1 n)
  have "digit_chars ! k \<in> set digit_chars" if "k < 10" for k
    using that by (intro nth_mem) (simp add: digit_chars_def)
  with 1 show ?case
    by (subst (asm) nat_str.simps) (auto split: if_splits)
qed

lemma slash_notin_nat_str [simp]: "CHR ''/'' \<notin> set (nat_str n)"
  using nat_str_chars [of "CHR ''/''" n] by (auto simp: digit_chars_def)

subsection \<open>Keeping first occurrences\<close>

lemma distinct_remdups_first [simp]: "distinct (remdups_first xs)"
  by (simp add: remdups_first_def)

lemma set_remdups_first [simp]: "set (remdups_first xs) = set xs"
  by (simp add: remdups_first_def)

lemma remdups_first_Nil_iff [simp]: "remdups_first xs = [] \<longleftrightarrow> xs = []"
  by (simp add: remdups_first_def)

lemma remdups_first_snoc_in: "x \<in> set xs \<Longrightarrow> remdups_first (xs @ [x]) = remdups_first xs"
  by (simp add: remdups_first_def)

lemma remdups_first_snoc_notin:
  "x \<notin> set xs \<Longrightarrow> remdups_first (xs @ [x]) = remdups_first xs @ [x]"
  by (simp add: remdups_first_def)

lemma remdups_first_distinct: "distinct xs \<Longrightarrow> remdups_first xs = xs"
  by (simp add: remdups_first_def distinct_remdups_id)

lemma count_list_distinct:
  "distinct xs \<Longrightarrow> count_list xs x = (if x \<in> set xs then 1 else 0)"
  by (induction xs) auto

subsection \<open>Lists split at a separator\<close>

lemma append_sep_eq_iff:
  assumes "c \<notin> set x" "c \<notin> set y"
  shows "(x @ c # a = y @ c # b) \<longleftrightarrow> (x = y \<and> a = b)"
  using assms
proof (induction x arbitrary: y)
  case Nil
  then show ?case by (cases y) auto
next
  case (Cons u x)
  then show ?case by (cases y) auto
qed

end
