(* ===== verification/PyLib.thy ===== *)
theory PyLib
  imports Prelude
begin

text \<open>
  The Python standard-library string and path functions that \<open>src/app.py\<close>
  calls: \<open>str.rstrip\<close> (lines 58 and 63), \<open>str.rfind\<close>, and the POSIX
  \<open>os.path.basename\<close>, \<open>os.path.splitext\<close> (line 32) and
  \<open>os.path.join\<close> (lines 35, 40, 78, 96), each written after CPython's
  \<open>posixpath\<close>/\<open>genericpath\<close> code. The lemmas give their behaviour on the
  shapes of strings the program produces.
\<close>

text \<open>\<open>s.rstrip(cs)\<close>: drop trailing characters that occur in \<open>cs\<close>.\<close>

definition rstrip :: "string \<Rightarrow> string \<Rightarrow> string" where
  "rstrip cs s = rev (dropWhile (\<lambda>c. c \<in> set cs) (rev s))"

text \<open>\<open>p.rfind(c)\<close>: the highest index holding \<open>c\<close>, or \<open>-1\<close>.\<close>

definition rfind :: "char \<Rightarrow> string \<Rightarrow> int" where
  "rfind c p =
     (if c \<in> set p then int (length p - Suc (length (takeWhile (\<lambda>x. x \<noteq> c) (rev p))))
      else -1)"

text \<open>\<open>posixpath.basename\<close>: \<open>i = p.rfind('/') + 1; return p[i:]\<close>.\<close>

definition basename :: "path \<Rightarrow> string" where
  "basename p = drop (nat (rfind CHR ''/'' p + 1)) p"

text \<open>
  \<open>genericpath._splitext\<close> with \<open>sep = '/'\<close> and \<open>extsep = '.'\<close>: the
  extension starts at the last dot after the last slash, unless everything
  between the slash and that dot is dots (a leading-dot name such as
  \<open>.bashrc\<close> has no extension). \<open>splitext_loop\<close> is the \<open>while\<close> loop
  that skips the leading dots.
\<close>

function splitext_loop :: "string \<Rightarrow> nat \<Rightarrow> nat \<Rightarrow> string \<times> string" where
  "splitext_loop p i d =
     (if i < d then
        (if p ! i \<noteq> CHR ''.'' then (take d p, drop d p)
         else splitext_loop p (Suc i) d)
      else (p, ''''))"
  by pat_completeness auto
termination
  by (relation "measure (\<lambda>(p, i, d). d - i)") auto

declare splitext_loop.simps [simp del]

definition splitext :: "path \<Rightarrow> string \<times> string" where
  "splitext p =
     (let sep = rfind CHR ''/'' p; dot = rfind CHR ''.'' p
      in if sep < dot then splitext_loop p (nat (sep + 1)) (nat dot) else (p, ''''))"

text \<open>\<open>posixpath.join(a, b)\<close> for two components.\<close>

definition join :: "path \<Rightarrow> string \<Rightarrow> path" where
  "join a b =
     (if b \<noteq> [] \<and> hd b = CHR ''/'' then b
      else if a = [] \<or> last a = CHR ''/'' then a @ b
      else a @ ''/'' @ b)"

subsection \<open>\<open>rstrip\<close>\<close>

lemma rstrip_prefix: "prefix (rstrip cs s) s"
proof -
  have "suffix (dropWhile (\<lambda>c. c \<in> set cs) (rev s)) (rev s)"
    by (metis suffix_def takeWhile_dropWhile_id)
  then show ?thesis by (simp add: rstrip_def suffix_to_prefix)
qed

lemma rstrip_last: "rstrip cs s \<noteq> [] \<Longrightarrow> last (rstrip cs s) \<notin> set cs"
proof -
  assume "rstrip cs s \<noteq> []"
  then have "dropWhile (\<lambda>c. c \<in> set cs) (rev s) \<noteq> []" by (simp add: rstrip_def)
  then have "hd (dropWhile (\<lambda>c. c \<in> set cs) (rev s)) \<notin> set cs" by (metis hd_dropWhile)
  then show ?thesis by (simp add: rstrip_def last_rev)
qed

lemma rstrip_idem: "rstrip cs (rstrip cs s) = rstrip cs s"
  by (simp add: rstrip_def)

lemma rstrip_keeps: "s = [] \<or> last s \<notin> set cs \<Longrightarrow> rstrip cs s = s"
  by (cases s rule: rev_cases) (auto simp: rstrip_def)

lemma rstrip_append_stop:
  "u \<noteq> [] \<Longrightarrow> last u \<notin> set cs \<Longrightarrow> rstrip cs (u @ v) = u @ rstrip cs v"
  by (cases u rule: rev_cases) (auto simp: rstrip_def dropWhile_append)

lemma rstrip_snoc_strip:
  "c \<in> set cs \<Longrightarrow> rstrip cs (s @ [c]) = rstrip cs s"
  by (simp add: rstrip_def)

subsection \<open>\<open>rfind\<close>, \<open>basename\<close>\<close>

lemma rfind_notin [simp]: "c \<notin> set p \<Longrightarrow> rfind c p = -1"
  by (simp add: rfind_def)

lemma rfind_last: "c \<notin> set v \<Longrightarrow> rfind c (u @ c # v) = int (length u)"
proof -
  assume v: "c \<notin> set v"
  then have "takeWhile (\<lambda>x. x \<noteq> c) (rev v @ c # rev u) = rev v @ takeWhile (\<lambda>x. x \<noteq> c) (c # rev u)"
    by (intro takeWhile_append2) auto
  with v show ?thesis by (simp add: rfind_def)
qed

lemma basename_noslash [simp]: "CHR ''/'' \<notin> set n \<Longrightarrow> basename n = n"
  by (simp add: basename_def)

lemma basename_slash: "CHR ''/'' \<notin> set n \<Longrightarrow> basename (d @ CHR ''/'' # n) = n"
proof -
  assume n: "CHR ''/'' \<notin> set n"
  have "nat (int (length d) + 1) = Suc (length d)" by arith
  with n show ?thesis by (simp add: basename_def rfind_last)
qed

lemma basename_dir:
  "d = [] \<or> last d = CHR ''/'' \<Longrightarrow> CHR ''/'' \<notin> set n \<Longrightarrow> basename (d @ n) = n"
  by (cases d rule: rev_cases) (auto simp: basename_slash)

lemma basename_noslash_result: "CHR ''/'' \<notin> set (basename p)"
proof (cases "CHR ''/'' \<in> set p")
  case True
  then obtain u v where "p = u @ CHR ''/'' # v" "CHR ''/'' \<notin> set v"
    using split_list_last by metis
  then show ?thesis by (simp add: basename_slash)
next
  case False
  then show ?thesis by simp
qed

subsection \<open>\<open>splitext\<close>\<close>

lemma splitext_loop_eq:
  "d \<le> length p \<Longrightarrow>
   splitext_loop p i d =
     (if \<exists>j. i \<le> j \<and> j < d \<and> p ! j \<noteq> CHR ''.'' then (take d p, drop d p) else (p, ''''))"
proof (induction p i d rule: splitext_loop.induct)
  case (1 p i d)
  show ?case
  proof (cases "i < d")
    case True
    then show ?thesis
      using "1" by (subst splitext_loop.simps) (auto simp: Suc_le_eq le_less)
  next
    case False
    then show ?thesis by (subst splitext_loop.simps) auto
  qed
qed

lemma splitext_append: "fst (splitext p) @ snd (splitext p) = p"
  by (auto simp: splitext_def Let_def splitext_loop_eq rfind_def)

lemma splitext_name_ext:
  assumes "CHR ''/'' \<notin> set b" "CHR ''/'' \<notin> set e" "CHR ''.'' \<notin> set e"
    and "\<exists>c\<in>set b. c \<noteq> CHR ''.''"
  shows "splitext (b @ CHR ''.'' # e) = (b, CHR ''.'' # e)"
proof -
  have dot: "rfind CHR ''.'' (b @ CHR ''.'' # e) = int (length b)"
    using assms(3) by (rule rfind_last)
  have sep: "rfind CHR ''/'' (b @ CHR ''.'' # e) = -1"
    using assms(1,2) by simp
  from assms(4) obtain j where "j < length b" "b ! j \<noteq> CHR ''.''"
    by (auto simp: in_set_conv_nth)
  then have "\<exists>j. 0 \<le> j \<and> j < length b \<and> (b @ CHR ''.'' # e) ! j \<noteq> CHR ''.''"
    by (auto simp: nth_append)
  then show ?thesis
    by (simp add: splitext_def dot sep splitext_loop_eq)
qed

lemma splitext_dots_only:
  assumes "CHR ''/'' \<notin> set b" "CHR ''/'' \<notin> set e" "CHR ''.'' \<notin> set e"
    and "\<forall>c\<in>set b. c = CHR ''.''"
  shows "splitext (b @ CHR ''.'' # e) = (b @ CHR ''.'' # e, '''')"
proof -
  have dot: "rfind CHR ''.'' (b @ CHR ''.'' # e) = int (length b)"
    using assms(3) by (rule rfind_last)
  have sep: "rfind CHR ''/'' (b @ CHR ''.'' # e) = -1"
    using assms(1,2) by simp
  have "\<not> (\<exists>j. j < length b \<and> (b @ CHR ''.'' # e) ! j \<noteq> CHR ''.'')"
    using assms(4) by (auto simp: nth_append)
  then show ?thesis
    by (simp add: splitext_def dot sep splitext_loop_eq)
qed

subsection \<open>\<open>join\<close>\<close>

lemma join_plain: "a \<noteq> [] \<Longrightarrow> last a \<noteq> CHR ''/'' \<Longrightarrow> b = [] \<or> hd b \<noteq> CHR ''/'' \<Longrightarrow>
  join a b = a @ CHR ''/'' # b"
  by (auto simp: join_def)

end
