(* ===== verification/UrlScan.thy ===== *)
theory UrlScan
  imports PyLib
begin

text \<open>
  The URL regular expression of \<open>src/app.py\<close> line 9,
  \<open>URL_PATTERN = re.compile(r'(https?://[^\s<>"\'\)\]]+)')\<close>, and its use
  with \<open>findall\<close> on a page's text (line 62). Python's \<open>re\<close> scans the
  text left to right; at each position it tries the pattern, with \<open>s?\<close>
  greedy (first with the \<open>s\<close>, then without) and the character class
  \<open>[^...]+\<close> greedy; a successful match is reported (the only group is the
  whole match) and the scan resumes after it, a failure moves one character on.
  \<open>match_at\<close> is one attempt, \<open>findall\<close> the scan.
  Characters are the 256 code points U+0000..U+00FF of a Python \<open>str\<close>;
  \<open>\s\<close> is Python's Unicode whitespace restricted to them.
\<close>

definition py_isspace :: "char \<Rightarrow> bool" where
  "py_isspace c =
     (let n = (of_char c :: nat)
      in (9 \<le> n \<and> n \<le> 13) \<or> (28 \<le> n \<and> n \<le> 32) \<or> n = 133 \<or> n = 160)"

definition url_excluded :: string where
  "url_excluded = [CHR ''<'', CHR ''>'', CHR 0x22, CHR 0x27, CHR '')'', CHR '']'']"

definition url_char :: "char \<Rightarrow> bool" where
  "url_char c = (\<not> py_isspace c \<and> c \<notin> set url_excluded)"

text \<open>
  One attempt of \<open>https?://[^...]+\<close> at the start of \<open>s\<close> with the literal
  prefix \<open>pre\<close>: the prefix, then the longest non-empty run of URL characters.
  The result is the match and the rest of the text.
\<close>

definition match_scheme :: "string \<Rightarrow> string \<Rightarrow> (string \<times> string) option" where
  "match_scheme pre s =
     (if prefix pre s then
        (case drop (length pre) s of
           [] \<Rightarrow> None
         | c # t \<Rightarrow>
             if url_char c
             then Some (pre @ c # takeWhile url_char t, dropWhile url_char t)
             else None)
      else None)"

definition match_at :: "string \<Rightarrow> (string \<times> string) option" where
  "match_at s =
     (case match_scheme ''https://'' s of
        Some r \<Rightarrow> Some r
      | None \<Rightarrow> match_scheme ''http://'' s)"

definition url_text :: "string \<Rightarrow> bool" where
  "url_text m =
     (\<exists>sch u. (sch = ''https://'' \<or> sch = ''http://'') \<and> m = sch @ u \<and> u \<noteq> [] \<and>
        (\<forall>c\<in>set u. url_char c))"

definition url_shaped :: "string \<Rightarrow> string \<Rightarrow> bool" where
  "url_shaped m r = (url_text m \<and> (r = [] \<or> \<not> url_char (hd r)))"

function findall :: "string \<Rightarrow> string list" where
  "findall [] = []"
| "findall (c # cs) =
     (case match_at (c # cs) of
        Some (m, rest) \<Rightarrow> m # findall rest
      | None \<Rightarrow> findall cs)"
  by pat_completeness auto
termination
proof (relation "measure length")
  fix c cs x2 m rest
  assume a: "match_at (c # cs) = Some x2" "(m, rest) = x2"
  have sch: "length rest < length (c # cs)" if "match_scheme pre (c # cs) = Some (m, rest)" for pre
  proof -
    from that obtain x t where t: "c # cs = pre @ x # t" "rest = dropWhile url_char t"
      by (auto simp: match_scheme_def prefix_def split: if_splits list.splits)
    then have "length t < length (c # cs)" by simp
    with t(2) show ?thesis using length_dropWhile_le [of url_char t] by simp
  qed
  from a have "match_scheme ''https://'' (c # cs) = Some (m, rest) \<or>
      match_scheme ''http://'' (c # cs) = Some (m, rest)"
    by (auto simp: match_at_def split: option.splits)
  then have "length rest < length (c # cs)"
    using sch by blast
  then show "(rest, c # cs) \<in> measure length" by simp
qed auto

lemmas url_scan_eval = match_at_def match_scheme_def url_char_def py_isspace_def url_excluded_def

lemma match_scheme_split:
  "match_scheme pre s = Some (m, r) \<Longrightarrow> s = m @ r \<and> length r < length s"
  using length_dropWhile_le [of url_char]
  by (auto simp: match_scheme_def prefix_def less_Suc_eq_le trans_le_add2 split: if_splits list.splits)

lemma match_at_split:
  "match_at s = Some (m, r) \<Longrightarrow> s = m @ r \<and> length r < length s"
  by (auto simp: match_at_def dest: match_scheme_split split: option.splits)

lemma match_scheme_Some_iff:
  "match_scheme pre s = Some (m, r) \<longleftrightarrow>
     (\<exists>u. m = pre @ u \<and> s = m @ r \<and> u \<noteq> [] \<and> (\<forall>c\<in>set u. url_char c) \<and>
          (r = [] \<or> \<not> url_char (hd r)))"
proof
  assume "match_scheme pre s = Some (m, r)"
  then obtain c t where s: "s = pre @ c # t" "url_char c"
        "m = pre @ c # takeWhile url_char t" "r = dropWhile url_char t"
      by (auto simp: match_scheme_def prefix_def split: if_splits list.splits)
  have "\<forall>x\<in>set (c # takeWhile url_char t). url_char x"
    using s(2) by (auto dest: set_takeWhileD)
  moreover have "r = [] \<or> \<not> url_char (hd r)"
    using s(4) hd_dropWhile by metis
  ultimately show "\<exists>u. m = pre @ u \<and> s = m @ r \<and> u \<noteq> [] \<and> (\<forall>c\<in>set u. url_char c) \<and>
          (r = [] \<or> \<not> url_char (hd r))"
    using s by (intro exI [of _ "c # takeWhile url_char t"]) simp
next
  assume "\<exists>u. m = pre @ u \<and> s = m @ r \<and> u \<noteq> [] \<and> (\<forall>c\<in>set u. url_char c) \<and>
          (r = [] \<or> \<not> url_char (hd r))"
  then obtain c u' where u: "m = pre @ c # u'" "s = pre @ c # u' @ r" "url_char c"
      "\<forall>x\<in>set u'. url_char x" "r = [] \<or> \<not> url_char (hd r)"
    by (metis append.assoc append_Cons list.exhaust list.set_intros(1,2))
  have "takeWhile url_char (u' @ r) = u'" "dropWhile url_char (u' @ r) = r"
    using u(4,5) by (cases r; simp add: takeWhile_append2 dropWhile_append2)+
  with u show "match_scheme pre s = Some (m, r)"
    by (simp add: match_scheme_def)
qed

lemma match_at_Some_iff:
  "match_at s = Some (m, r) \<longleftrightarrow> s = m @ r \<and> url_shaped m r"
proof
  assume "match_at s = Some (m, r)"
  then show "s = m @ r \<and> url_shaped m r"
    by (auto simp: match_at_def url_shaped_def url_text_def match_scheme_Some_iff split: option.splits)
next
  assume a: "s = m @ r \<and> url_shaped m r"
  then obtain sch u where u: "sch = ''https://'' \<or> sch = ''http://''" "m = sch @ u"
      "s = sch @ u @ r" "u \<noteq> []" "\<forall>c\<in>set u. url_char c" "r = [] \<or> \<not> url_char (hd r)"
    by (auto simp: url_shaped_def url_text_def)
  then have ok: "match_scheme sch s = Some (m, r)"
    by (auto simp: match_scheme_Some_iff)
  from u(1) show "match_at s = Some (m, r)"
  proof
    assume "sch = ''https://''"
    with ok show ?thesis by (simp add: match_at_def)
  next
    assume h: "sch = ''http://''"
    with u(3) have "match_scheme ''https://'' s = None"
      by (simp add: match_scheme_def)
    with ok h show ?thesis by (simp add: match_at_def)
  qed
qed

lemma match_at_None_iff:
  "match_at s = None \<longleftrightarrow>
     \<not> (\<exists>c. url_char c \<and> (prefix (''http://'' @ [c]) s \<or> prefix (''https://'' @ [c]) s))"
  by (auto simp: match_at_def match_scheme_def prefix_def split: option.splits if_splits list.splits)

lemma findall_Cons_None: "match_at (c # cs) = None \<Longrightarrow> findall (c # cs) = findall cs"
  by simp

text \<open>
  Claim C5: the scan finds no URL in a text exactly when the text contains no
  \<open>http://\<close> or \<open>https://\<close> followed by a character of the class
  \<open>[^\s<>"'\)\]]\<close>.
\<close>

theorem findall_Nil_iff:
  "findall t = [] \<longleftrightarrow>
     \<not> (\<exists>c. url_char c \<and> (sublist (''http://'' @ [c]) t \<or> sublist (''https://'' @ [c]) t))"
proof (induction t rule: findall.induct)
  case 1
  then show ?case by simp
next
  case (2 c cs)
  show ?case
  proof (cases "match_at (c # cs)")
    case None
    have e: "findall (c # cs) = findall cs" using None by simp
    have n: "\<not> (\<exists>x. url_char x \<and> (prefix (''http://'' @ [x]) (c # cs) \<or> prefix (''https://'' @ [x]) (c # cs)))"
      using None match_at_None_iff by blast
    show ?thesis
      unfolding e "2.IH"(1) [OF None] using n by (auto simp: sublist_Cons_right)
  next
    case (Some a)
    then obtain m r where m: "match_at (c # cs) = Some (m, r)" by (cases a) auto
    then have ne: "findall (c # cs) \<noteq> []" by simp
    have "\<exists>x. url_char x \<and> (prefix (''http://'' @ [x]) (c # cs) \<or> prefix (''https://'' @ [x]) (c # cs))"
      using m match_at_None_iff [of "c # cs"] by (metis option.simps(3))
    with ne show ?thesis using prefix_imp_sublist by blast
  qed
qed

text \<open>
  Claim C4: \<open>findall\<close> is the leftmost-longest scan: its first result \<open>m\<close>
  occurs in the text after a prefix at no position of which the pattern
  matches, \<open>m\<close> is a scheme followed by a maximal non-empty run of URL
  characters, and the remaining results are the scan of the text after \<open>m\<close>.
\<close>

theorem findall_leftmost:
  "findall t = m # ms \<Longrightarrow>
     \<exists>pre r. t = pre @ m @ r \<and> url_shaped m r \<and> findall r = ms \<and>
        (\<forall>i<length pre. match_at (drop i t) = None)"
proof (induction t arbitrary: m ms rule: findall.induct)
  case 1
  then show ?case by simp
next
  case (2 c cs)
  show ?case
  proof (cases "match_at (c # cs)")
    case None
    with "2.prems" have "findall cs = m # ms" by simp
    then obtain pre r where p: "cs = pre @ m @ r" "url_shaped m r" "findall r = ms"
        "\<forall>i<length pre. match_at (drop i cs) = None"
      using "2.IH"(1) [OF None] by blast
    have "\<forall>i<length (c # pre). match_at (drop i (c # cs)) = None"
      using None p(4) by (auto simp: less_Suc_eq_0_disj)
    with p show ?thesis by (intro exI [of _ "c # pre"] exI [of _ r]) simp
  next
    case (Some a)
    then obtain m' r where a: "match_at (c # cs) = Some (m', r)" by (cases a) auto
    with "2.prems" have "m' = m" "findall r = ms" by simp_all
    with a show ?thesis
      by (intro exI [of _ "[]"] exI [of _ r]) (simp add: match_at_Some_iff)
  qed
qed

lemma findall_url_text: "m \<in> set (findall t) \<Longrightarrow> url_text m \<and> sublist m t"
proof (induction t rule: findall.induct)
  case 1
  then show ?case by simp
next
  case (2 c cs)
  show ?case
  proof (cases "match_at (c # cs)")
    case None
    with "2.prems" "2.IH"(1) [OF None] show ?thesis
      by (auto simp: sublist_Cons_right)
  next
    case (Some a)
    then obtain m' r where a: "match_at (c # cs) = Some (m', r)" by (cases a) auto
    then have s: "c # cs = m' @ r" "url_shaped m' r" by (simp_all add: match_at_Some_iff)
    from "2.prems" a have "m = m' \<or> m \<in> set (findall r)" by simp
    then show ?thesis
    proof
      assume "m = m'"
      with s show ?thesis by (simp add: url_shaped_def)
    next
      assume "m \<in> set (findall r)"
      with "2.IH"(2) [OF a refl] have "url_text m \<and> sublist m r" by blast
      with s(1) show ?thesis by (metis sublist_append_leftI sublist_order.order_trans)
    qed
  qed
qed

lemma url_text_length: "url_text m \<Longrightarrow> 8 \<le> length m"
  by (auto simp: url_text_def Suc_le_eq)

text \<open>
  Claim C12: the scan reports at most one URL per eight characters of text,
  since every match is a scheme of at least seven characters and one URL
  character, and matches do not overlap.
\<close>

theorem findall_count_bound: "8 * length (findall t) \<le> length t"
proof (induction t rule: findall.induct)
  case 1
  then show ?case by simp
next
  case (2 c cs)
  show ?case
  proof (cases "match_at (c # cs)")
    case None
    then show ?thesis using "2.IH"(1) [OF None] by simp
  next
    case (Some r)
    obtain m rest where r: "r = (m, rest)" by fastforce
    have split: "c # cs = m @ rest" and "url_shaped m rest"
      using Some r by (simp_all add: match_at_Some_iff)
    then have "8 \<le> length m" by (simp add: url_shaped_def url_text_length)
    moreover have "8 * length (findall rest) \<le> length rest"
      using "2.IH"(2) [OF Some r [symmetric]] .
    moreover have "findall (c # cs) = m # findall rest"
      using Some r by simp
    moreover have "length (c # cs) = length m + length rest"
      by (simp only: split length_append)
    ultimately show ?thesis by simp
  qed
qed

lemma findall_example: "findall ''see http://example.com).'' = [''http://example.com'']"
  by (simp add: url_scan_eval)

lemma findall_example_nil: "findall ''see example.com or http:// x'' = []"
  by (simp add: url_scan_eval)

theorem findall_leftmost_witness:
  "\<exists>pre r. ''see http://example.com).'' = pre @ ''http://example.com'' @ r \<and>
     url_shaped ''http://example.com'' r \<and> findall r = [] \<and>
     (\<forall>i<length pre. match_at (drop i ''see http://example.com).'') = None)"
  using findall_leftmost [OF findall_example] .

theorem findall_Nil_iff_witness:
  "\<not> (\<exists>c. url_char c \<and> (sublist (''http://'' @ [c]) ''see example.com or http:// x'' \<or>
      sublist (''https://'' @ [c]) ''see example.com or http:// x''))"
  using findall_Nil_iff [of "''see example.com or http:// x''"] findall_example_nil by simp

end
