(* ===== verification/Links.thy ===== *)
theory Links
  imports UrlScan
begin

text \<open>
  The link extractor, step 5 of \<open>convert_pdf_to_word\<close> in \<open>src/app.py\<close>
  (lines 51--66). PyMuPDF is not modelled: a page is what the loop reads from it,
  the \<open>'uri'\<close> entries of its annotations' \<open>info\<close> dictionaries (an absent key
  is \<open>None\<close>) and the text returned by \<open>page.get_text('text')\<close>. Each URI that
  is truthy, and each regex match of the text, is stripped of trailing
  \<open>. , ; : ) ]\<close> and appended to \<open>links\<close> unless already there.

  The reference specification is \<open>link_candidates\<close>, the list of every stripped
  URI and match in document order (per page: annotations, then text); the loop
  is shown to compute its first occurrences.
\<close>

definition strip_chars :: string where
  "strip_chars = ''.,;:)]''"

definition add_link :: "string list \<Rightarrow> string \<Rightarrow> string list" where
  "add_link links u = (if u \<in> set links then links else links @ [u])"

record page =
  annots :: "string option list"
  page_text :: string

definition add_annot :: "string list \<Rightarrow> string option \<Rightarrow> string list" where
  "add_annot links uri =
     (case uri of
        None \<Rightarrow> links
      | Some s \<Rightarrow> if s = [] then links else add_link links (rstrip strip_chars s))"

definition add_match :: "string list \<Rightarrow> string \<Rightarrow> string list" where
  "add_match links m = add_link links (rstrip strip_chars m)"

definition scan_page :: "string list \<Rightarrow> page \<Rightarrow> string list" where
  "scan_page links p = foldl add_match (foldl add_annot links (annots p)) (findall (page_text p))"

definition extract_links :: "page list \<Rightarrow> string list" where
  "extract_links ps = foldl scan_page [] ps"

subsection \<open>Reference specification\<close>

fun annot_uris :: "string option list \<Rightarrow> string list" where
  "annot_uris [] = []"
| "annot_uris (None # us) = annot_uris us"
| "annot_uris (Some s # us) = (if s = [] then annot_uris us else s # annot_uris us)"

definition page_candidates :: "page \<Rightarrow> string list" where
  "page_candidates p = map (rstrip strip_chars) (annot_uris (annots p) @ findall (page_text p))"

definition link_candidates :: "page list \<Rightarrow> string list" where
  "link_candidates ps = concat (map page_candidates ps)"

subsection \<open>The loop computes the first occurrences\<close>

lemma foldl_add_link: "foldl add_link acc xs = remdups_first (acc @ xs)" if "distinct acc"
  using that
proof (induction xs arbitrary: acc rule: rev_induct)
  case Nil
  then show ?case by (simp add: remdups_first_distinct)
next
  case (snoc x xs)
  have IH: "foldl add_link acc xs = remdups_first (acc @ xs)"
    using snoc by blast
  have "foldl add_link acc (xs @ [x]) = add_link (remdups_first (acc @ xs)) x"
    by (simp add: IH)
  also have "\<dots> = remdups_first ((acc @ xs) @ [x])"
    by (cases "x \<in> set (acc @ xs)")
      (simp_all add: add_link_def remdups_first_snoc_in remdups_first_snoc_notin del: append_assoc)
  finally show ?case by simp
qed

lemma foldl_add_annot:
  "foldl add_annot acc us = foldl add_link acc (map (rstrip strip_chars) (annot_uris us))"
  by (induction us arbitrary: acc rule: annot_uris.induct) (simp_all add: add_annot_def)

lemma foldl_add_match:
  "foldl add_match acc ms = foldl add_link acc (map (rstrip strip_chars) ms)"
  by (induction ms arbitrary: acc) (simp_all add: add_match_def)

lemma scan_page_add_link: "scan_page acc p = foldl add_link acc (page_candidates p)"
  by (simp add: scan_page_def page_candidates_def foldl_add_annot foldl_add_match)

lemma foldl_scan_page:
  "foldl scan_page acc ps = foldl add_link acc (link_candidates ps)"
  by (induction ps arbitrary: acc) (simp_all add: link_candidates_def scan_page_add_link)

lemmas links_eval = extract_links_def scan_page_def add_annot_def add_match_def add_link_def
  strip_chars_def rstrip_def url_scan_eval

lemma set_link_candidates:
  "set (link_candidates ps) =
     (\<Union>p\<in>set ps. rstrip strip_chars ` (set (annot_uris (annots p)) \<union> set (findall (page_text p))))"
  by (auto simp: link_candidates_def page_candidates_def)

lemma rstrip_url_text:
  assumes "url_text m"
  shows "\<exists>sch v. (sch = ''http://'' \<or> sch = ''https://'') \<and> rstrip strip_chars m = sch @ v \<and>
           (\<forall>c\<in>set v. url_char c)"
proof -
  from assms obtain sch u where u: "sch = ''https://'' \<or> sch = ''http://''" "m = sch @ u"
      "\<forall>c\<in>set u. url_char c"
    by (auto simp: url_text_def)
  have "rstrip strip_chars m = sch @ rstrip strip_chars u"
    using u(1,2) by (auto simp: strip_chars_def intro: rstrip_append_stop)
  moreover have "\<forall>c\<in>set (rstrip strip_chars u). url_char c"
    using u(3) rstrip_prefix [of strip_chars u] by (auto dest: set_mono_prefix)
  ultimately show ?thesis using u(1) by blast
qed

lemma annot_uris_member: "Some u \<in> set us \<Longrightarrow> u \<noteq> [] \<Longrightarrow> u \<in> set (annot_uris us)"
  by (induction us rule: annot_uris.induct) auto

lemma rstrip_all: "set u \<subseteq> set cs \<Longrightarrow> rstrip cs u = []"
  by (simp add: rstrip_def subset_code(1))

lemma extract_links_order_example:
  "extract_links [\<lparr>annots = [Some ''http://b.org/x''],
      page_text = ''see http://a.org, then http://b.org/x).''\<rparr>] = [''http://b.org/x'', ''http://a.org'']"
  by (simp add: links_eval)

lemma extract_links_candidates: "extract_links ps = remdups_first (link_candidates ps)"
  by (simp add: extract_links_def foldl_scan_page foldl_add_link)

subsection \<open>Properties of the extracted list\<close>

text \<open>
  Claim C2: the extraction loop returns exactly the first occurrences, in
  order, of the stripped annotation URIs and text matches of all pages (per page
  the annotations before the text).
\<close>

theorem extract_links_first_occurrences:
  "extract_links ps = rev (remdups (rev (concat (map page_candidates ps))))"
  by (simp add: extract_links_candidates remdups_first_def link_candidates_def)

text \<open>
  Claim C3: every candidate link occurs exactly once in the result, and nothing
  else occurs; in particular a URL found both as an annotation and in the text
  is listed once.
\<close>

theorem extract_links_once:
  "count_list (extract_links ps) u = (if u \<in> set (link_candidates ps) then 1 else 0)"
  by (simp add: extract_links_candidates count_list_distinct)

text \<open>
  Claim C22: the link list is empty exactly when no page has a non-empty
  annotation URI and no page text has a match of the URL pattern.
\<close>

theorem extract_links_Nil_iff:
  "extract_links ps = [] \<longleftrightarrow>
     (\<forall>p\<in>set ps. annot_uris (annots p) = [] \<and> findall (page_text p) = [])"
  by (auto simp: extract_links_candidates link_candidates_def page_candidates_def)

text \<open>Claim C23: no extracted link ends with one of \<open>. , ; : ) ]\<close>.\<close>

theorem extract_links_stripped:
  "u \<in> set (extract_links ps) \<Longrightarrow> u \<noteq> [] \<Longrightarrow> last u \<notin> set strip_chars"
  by (auto simp: extract_links_candidates set_link_candidates dest: rstrip_last)

text \<open>
  Claim C24: when no annotation carries a URI, every extracted link is
  \<open>http://\<close> or \<open>https://\<close> followed by URL characters only (the stripping
  never reaches into the scheme, whose last character is a slash).
\<close>

theorem extract_links_text_scheme:
  assumes "u \<in> set (extract_links ps)"
    and "\<forall>p\<in>set ps. annot_uris (annots p) = []"
  shows "\<exists>sch v. (sch = ''http://'' \<or> sch = ''https://'') \<and> u = sch @ v \<and>
           (\<forall>c\<in>set v. url_char c)"
proof -
  from assms obtain p m where "p \<in> set ps" "m \<in> set (findall (page_text p))"
      "u = rstrip strip_chars m"
    by (auto simp: extract_links_candidates set_link_candidates)
  then show ?thesis using findall_url_text rstrip_url_text by metis
qed

text \<open>
  Claim C25: the truthiness test of line 57 comes before the strip: an
  annotation whose URI is non-empty but made only of the characters
  \<open>. , ; : ) ]\<close> contributes the empty link to the list.
\<close>

theorem extract_links_strip_only_uri:
  assumes "p \<in> set ps" and "Some u \<in> set (annots p)" and "u \<noteq> []"
    and "set u \<subseteq> set strip_chars"
  shows "[] \<in> set (extract_links ps)"
proof -
  have "u \<in> set (annot_uris (annots p))" using assms(2,3) by (rule annot_uris_member)
  moreover have "rstrip strip_chars u = []" using assms(4) by (rule rstrip_all)
  ultimately show ?thesis
    using assms(1) by (force simp: extract_links_candidates set_link_candidates)
qed

subsection \<open>Witnesses\<close>

theorem extract_links_stripped_witness:
  "''http://b.org/x'' \<in> set (extract_links [\<lparr>annots = [Some ''http://b.org/x''],
      page_text = ''see http://a.org, then http://b.org/x).''\<rparr>]) \<and> last ''http://b.org/x'' \<notin> set strip_chars"
  using extract_links_stripped [of "''http://b.org/x''"] extract_links_order_example
  by (simp add: strip_chars_def)

theorem extract_links_text_scheme_witness:
  "\<exists>sch v. (sch = ''http://'' \<or> sch = ''https://'') \<and> ''http://a.org'' = sch @ v \<and>
           (\<forall>c\<in>set v. url_char c)"
proof -
  have "extract_links [\<lparr>annots = [], page_text = ''see http://a.org, then''\<rparr>] = [''http://a.org'']"
    by (simp add: links_eval)
  then show ?thesis
    using extract_links_text_scheme [of "''http://a.org''" "[\<lparr>annots = [], page_text = ''see http://a.org, then''\<rparr>]"]
    by simp
qed

theorem extract_links_Nil_iff_witness:
  "extract_links [\<lparr>annots = [None], page_text = ''no links here''\<rparr>] = []"
proof -
  have "findall ''no links here'' = []" by (simp add: url_scan_eval)
  then show ?thesis using extract_links_Nil_iff [of "[\<lparr>annots = [None], page_text = ''no links here''\<rparr>]"]
    by simp
qed


theorem extract_links_strip_only_uri_witness:
  "[] \<in> set (extract_links [\<lparr>annots = [None, Some ''.)''], page_text = ''see http://a.org''\<rparr>])"
  using extract_links_strip_only_uri [of "\<lparr>annots = [None, Some ''.)''], page_text = ''see http://a.org''\<rparr>"
      "[\<lparr>annots = [None, Some ''.)''], page_text = ''see http://a.org''\<rparr>]" "''.)''"]
  by (simp add: strip_chars_def)

end
