(* ===== verification/Docx.thy ===== *)
theory Docx
  imports Prelude
begin

text \<open>
  The Word document as \<open>src/app.py\<close> edits it through python-docx: the body
  is a sequence of blocks (paragraphs, headings, page breaks, tables with an
  optional style name). A table is a list of rows, a row a list of cells, and a
  cell a list of blocks, so tables can be nested in cells, as pdf2docx emits
  them. \<open>doc.tables\<close> lists the tables of the body only, not those nested in
  cells. \<open>style_tables\<close> is the loop of step 4 (lines 47--48) that sets the
  style of each table of \<open>doc.tables\<close> to \<open>Table Grid\<close>; \<open>add_link_page\<close> is the
  body of step 6 (lines 71--74): a page break, a level-2 heading
  \<open>Daftar Link\<close> and one paragraph per link. Loading and saving the file
  are the file-system steps of the \<open>Convert\<close> theory.
\<close>

datatype block =
    Paragraph string
  | Heading string nat
  | PageBreak
  | Table "string option" "block list list list"

record document =
  body :: "block list"

fun is_table :: "block \<Rightarrow> bool" where
  "is_table (Table _ _) = True"
| "is_table _ = False"

fun table_style :: "block \<Rightarrow> string option" where
  "table_style (Table st _) = st"
| "table_style _ = None"

text \<open>\<open>doc.tables\<close>: the tables of the body, in order.\<close>

definition tables :: "document \<Rightarrow> block list" where
  "tables d = filter is_table (body d)"

text \<open>\<open>table.style = st\<close>.\<close>

fun set_style :: "string \<Rightarrow> block \<Rightarrow> block" where
  "set_style st (Table _ cells) = Table (Some st) cells"
| "set_style st b = b"

definition style_tables :: "document \<Rightarrow> document" where
  "style_tables d = d\<lparr>body := map (set_style ''Table Grid'') (body d)\<rparr>"

definition add_page_break :: "document \<Rightarrow> document" where
  "add_page_break d = d\<lparr>body := body d @ [PageBreak]\<rparr>"

definition add_heading :: "string \<Rightarrow> nat \<Rightarrow> document \<Rightarrow> document" where
  "add_heading t lvl d = d\<lparr>body := body d @ [Heading t lvl]\<rparr>"

definition add_paragraph :: "string \<Rightarrow> document \<Rightarrow> document" where
  "add_paragraph t d = d\<lparr>body := body d @ [Paragraph t]\<rparr>"

definition add_link_page :: "string list \<Rightarrow> document \<Rightarrow> document" where
  "add_link_page links d =
     foldl (\<lambda>d u. add_paragraph u d) (add_heading ''Daftar Link'' 2 (add_page_break d)) links"

text \<open>Every table of \<open>doc.tables\<close> has the style that step 4 sets.\<close>

definition doc_tables_styled :: "document \<Rightarrow> bool" where
  "doc_tables_styled d = (\<forall>t\<in>set (tables d). table_style t = Some ''Table Grid'')"

text \<open>The tables nested in the cells of a table, at any depth, in document order.\<close>

fun nested_tables :: "block \<Rightarrow> block list" where
  "nested_tables (Table st rows) =
     concat (map (\<lambda>row. concat (map (\<lambda>cell. concat (map (\<lambda>b.
       (if is_table b then [b] else []) @ nested_tables b) cell)) row)) rows)"
| "nested_tables _ = []"

definition doc_nested_tables :: "document \<Rightarrow> block list" where
  "doc_nested_tables d = concat (map nested_tables (body d))"

subsection \<open>Table styling\<close>

lemma is_table_set_style [simp]: "is_table (set_style st b) = is_table b"
  by (cases b) auto

lemma set_style_non_table [simp]: "\<not> is_table b \<Longrightarrow> set_style st b = b"
  by (cases b) auto

lemma table_style_set_style: "is_table b \<Longrightarrow> table_style (set_style st b) = Some st"
  by (cases b) auto

lemma set_style_idem [simp]: "set_style st (set_style st b) = set_style st b"
  by (cases b) auto

lemma tables_style_tables: "tables (style_tables d) = map (set_style ''Table Grid'') (tables d)"
  by (simp add: tables_def style_tables_def filter_map comp_def)

lemma foldl_add_paragraph:
  "body (foldl (\<lambda>d u. add_paragraph u d) d links) = body d @ map Paragraph links"
  by (induction links arbitrary: d) (simp_all add: add_paragraph_def)

subsection \<open>The link page\<close>

lemma body_add_link_page:
  "body (add_link_page links d) = body d @ PageBreak # Heading ''Daftar Link'' 2 # map Paragraph links"
  by (simp add: add_link_page_def foldl_add_paragraph add_heading_def add_page_break_def)


lemma tables_add_link_page [simp]: "tables (add_link_page links d) = tables d"
  by (simp add: tables_def body_add_link_page)

lemma style_tables_styled:
  assumes "t \<in> set (tables (style_tables d))"
  shows "table_style t = Some ''Table Grid''"
proof -
  obtain x where x: "x \<in> set (tables d)" "t = set_style ''Table Grid'' x"
    using assms by (auto simp: tables_style_tables)
  then have "is_table x" by (simp add: tables_def)
  with x(2) show ?thesis by (simp add: table_style_set_style)
qed

lemma styled_output:
  "doc_tables_styled (if links = [] then style_tables d else add_link_page links (style_tables d))"
  by (simp add: doc_tables_styled_def style_tables_styled)

subsection \<open>Nested tables\<close>

lemma nested_tables_set_style [simp]: "nested_tables (set_style st b) = nested_tables b"
  by (cases b) simp_all

lemma doc_nested_style_tables [simp]: "doc_nested_tables (style_tables d) = doc_nested_tables d"
  by (simp add: doc_nested_tables_def style_tables_def comp_def)

lemma doc_nested_add_link_page [simp]:
  "doc_nested_tables (add_link_page links d) = doc_nested_tables d"
  by (simp add: doc_nested_tables_def body_add_link_page comp_def)

end
