(* ===== verification/Convert.thy ===== *)
theory Convert
  imports Links Docx
begin

text \<open>
  \<open>convert_pdf_to_word\<close> of \<open>src/app.py\<close> (lines 11--84) as a step on an
  explicit world: a file system (a map from paths to file contents) and the
  counter that names the next directory \<open>tempfile.mkdtemp\<close> creates. Each
  numbered step of the function is one definition; an exception is an \<open>Inl\<close>
  result that keeps the effects performed before it (the \<open>try/finally\<close> of
  the source does nothing on the way out). The two conversion libraries are
  parameters (\<open>libs\<close>): pdf2docx's \<open>Converter\<close> maps the bytes of a PDF to a
  document or raises, PyMuPDF's \<open>fitz.open\<close> maps them to the pages the link
  extractor reads or raises.
\<close>

datatype fentry =
    RawFile bytes
  | DocxFile document
  | ZipFile "(string \<times> fentry) list"

record libs =
  lib_convert :: "fentry \<Rightarrow> py_error + document"
  lib_pages :: "fentry \<Rightarrow> py_error + page list"

record world =
  files :: "path \<rightharpoonup> fentry"
  tmp_next :: nat

text \<open>The upload shapes accepted on lines 19--31.\<close>

datatype pdf_input =
    Stream fentry "string option"
  | DictIn "(string \<times> string) list"
  | PathIn path
  | OtherIn

subsection \<open>File-system primitives\<close>

definition tmp_dir :: "nat \<Rightarrow> path" where
  "tmp_dir n = ''/tmp/tmp'' @ nat_str n"

definition mkdtemp :: "(world, path) res" where
  "mkdtemp w = (Inr (tmp_dir (tmp_next w)), w\<lparr>tmp_next := Suc (tmp_next w)\<rparr>)"

definition read_file :: "path \<Rightarrow> (world, fentry) res" where
  "read_file p w =
     (case files w p of None \<Rightarrow> (Inl (FileNotFoundError p), w) | Some v \<Rightarrow> (Inr v, w))"

definition write_file :: "path \<Rightarrow> fentry \<Rightarrow> (world, unit) res" where
  "write_file p v w = (Inr (), w\<lparr>files := (files w)(p \<mapsto> v)\<rparr>)"

text \<open>\<open>shutil.copy(src, dst)\<close>: \<open>copyfile\<close> raises \<open>SameFileError\<close> when both
  name the same file.\<close>

definition copy_file :: "path \<Rightarrow> path \<Rightarrow> (world, unit) res" where
  "copy_file src dst =
     (if src = dst then raise (SameFileError src dst)
      else bind_res (read_file src) (\<lambda>v. write_file dst v))"

text \<open>\<open>Document(p)\<close> and \<open>doc.save(p)\<close>.\<close>

definition load_docx :: "path \<Rightarrow> (world, document) res" where
  "load_docx p =
     bind_res (read_file p)
       (\<lambda>v. case v of DocxFile d \<Rightarrow> ret d | _ \<Rightarrow> raise (DocxError p))"

definition save_docx :: "path \<Rightarrow> document \<Rightarrow> (world, unit) res" where
  "save_docx p d = write_file p (DocxFile d)"

subsection \<open>The steps of \<open>convert_pdf_to_word\<close>\<close>

text \<open>Step 1 (lines 19--31): the data and the original name of the upload.\<close>

definition read_input :: "pdf_input \<Rightarrow> (world, fentry \<times> string) res" where
  "read_input inp =
     (case inp of
        Stream data name \<Rightarrow>
          ret (data, case name of None \<Rightarrow> ''output.pdf'' | Some n \<Rightarrow> n)
      | DictIn kv \<Rightarrow>
          (case map_of kv ''name'' of
             None \<Rightarrow> raise (ValueError ''Unsupported input type'')
           | Some p \<Rightarrow> bind_res (read_file p) (\<lambda>data. ret (data, p)))
      | PathIn p \<Rightarrow> bind_res (read_file p) (\<lambda>data. ret (data, p))
      | OtherIn \<Rightarrow> raise (ValueError ''Unsupported input type''))"

text \<open>Line 32.\<close>

definition base_name :: "string \<Rightarrow> string" where
  "base_name orig_name = fst (splitext (basename orig_name))"

text \<open>Step 3 (lines 41--43): \<open>Converter(pdf_path).convert(temp_docx)\<close>.\<close>

definition run_converter :: "libs \<Rightarrow> path \<Rightarrow> path \<Rightarrow> (world, unit) res" where
  "run_converter L pdf_path temp_docx =
     bind_res (read_file pdf_path)
       (\<lambda>data. case lib_convert L data of
                  Inl e \<Rightarrow> raise e
                | Inr d \<Rightarrow> save_docx temp_docx d)"

text \<open>Step 4 (lines 46--49): every table gets the style \<open>Table Grid\<close>.\<close>

definition style_step :: "path \<Rightarrow> (world, unit) res" where
  "style_step temp_docx =
     bind_res (load_docx temp_docx) (\<lambda>doc. save_docx temp_docx (style_tables doc))"

text \<open>Step 5 (lines 52--66): open the PDF and extract its links.\<close>

definition pdf_links :: "libs \<Rightarrow> path \<Rightarrow> (world, string list) res" where
  "pdf_links L pdf_path =
     bind_res (read_file pdf_path)
       (\<lambda>data. case lib_pages L data of
                  Inl e \<Rightarrow> raise e
                | Inr ps \<Rightarrow> ret (extract_links ps))"

text \<open>Step 6 (lines 69--75): the link page, only when there are links.\<close>

definition append_links_step :: "string list \<Rightarrow> path \<Rightarrow> (world, unit) res" where
  "append_links_step links temp_docx =
     (if links \<noteq> [] then
        bind_res (load_docx temp_docx) (\<lambda>doc. save_docx temp_docx (add_link_page links doc))
      else ret ())"

text \<open>
  Lines 18--80, inside the working directory: read the upload, write it as
  \<open>input.pdf\<close>, convert to \<open>output.docx\<close>, style the tables, extract the
  links, add the link page, and copy the result to \<open><base_name>.docx\<close>
  (step 7, lines 78--80).
\<close>

definition convert_in_dir :: "libs \<Rightarrow> pdf_input \<Rightarrow> path \<Rightarrow> (world, path) res" where
  "convert_in_dir L inp workdir =
     bind_res (read_input inp) (\<lambda>(data, orig_name).
       let base_nm = base_name orig_name;
           pdf_path = join workdir ''input.pdf'';
           temp_docx = join workdir ''output.docx'';
           final_path = join workdir (base_nm @ ''.docx'')
       in bind_res (write_file pdf_path data) (\<lambda>_.
          bind_res (run_converter L pdf_path temp_docx) (\<lambda>_.
          bind_res (style_step temp_docx) (\<lambda>_.
          bind_res (pdf_links L pdf_path) (\<lambda>links.
          bind_res (append_links_step links temp_docx) (\<lambda>_.
          bind_res (copy_file temp_docx final_path) (\<lambda>_.
          ret final_path)))))))"

text \<open>The whole function (lines 11--84): a fresh working directory (line 16), then the steps.\<close>

definition convert_pdf_to_word :: "libs \<Rightarrow> pdf_input \<Rightarrow> (world, path) res" where
  "convert_pdf_to_word L inp = bind_res mkdtemp (convert_in_dir L inp)"

text \<open>
  A step confined to directory \<open>d\<close> leaves the directory counter alone,
  removes no file, and changes no file outside \<open>d\<close>.
\<close>

definition confined :: "path \<Rightarrow> (world, 'a) res \<Rightarrow> bool" where
  "confined d m =
     (\<forall>w. tmp_next (snd (m w)) = tmp_next w \<and> dom (files w) \<subseteq> dom (files (snd (m w))) \<and>
          (\<forall>p. files (snd (m w)) p \<noteq> files w p \<longrightarrow> (\<exists>a. p = d @ CHR ''/'' # a)))"

text \<open>
  The invariant that makes \<open>mkdtemp\<close> fresh: no file exists yet under a
  directory name the counter will hand out.
\<close>

definition tmp_fresh :: "world \<Rightarrow> bool" where
  "tmp_fresh w = (\<forall>n a. tmp_next w \<le> n \<longrightarrow> files w (tmp_dir n @ CHR ''/'' # a) = None)"

text \<open>
  From \<open>w\<close> to \<open>w'\<close> the counter did not go back and every changed file lies
  in a directory handed out from \<open>w\<close> on: the frame of a sequence of
  conversions.
\<close>

definition fresh_frame :: "world \<Rightarrow> world \<Rightarrow> bool" where
  "fresh_frame w w' \<longleftrightarrow> tmp_next w \<le> tmp_next w' \<and>
     (\<forall>q. files w' q \<noteq> files w q \<longrightarrow> (\<exists>n a. tmp_next w \<le> n \<and> q = tmp_dir n @ CHR ''/'' # a))"

subsection \<open>Lemmas on the steps\<close>

lemmas file_ops = read_file_def write_file_def save_docx_def load_docx_def copy_file_def
  mkdtemp_def ret_def raise_def

lemmas convert_steps = run_converter_def style_step_def pdf_links_def append_links_step_def

lemma read_input_world: "snd (read_input inp w) = w"
  by (auto simp: read_input_def file_ops bind_res_def split: pdf_input.splits option.splits)

lemma read_input_files:
  "files w' = files w \<Longrightarrow> fst (read_input inp w') = fst (read_input inp w)"
  by (auto simp: read_input_def file_ops bind_res_def split: pdf_input.splits option.splits)

lemma read_input_tmp:
  "read_input inp (w\<lparr>tmp_next := k\<rparr>) = (fst (read_input inp w), w\<lparr>tmp_next := k\<rparr>)"
  using read_input_world [of inp "w\<lparr>tmp_next := k\<rparr>"] read_input_files [of "w\<lparr>tmp_next := k\<rparr>" w inp]
  by (metis prod.collapse world.select_convs(1) world.surjective world.update_convs(2))

lemma tmp_dir_last: "tmp_dir n \<noteq> [] \<and> last (tmp_dir n) \<noteq> CHR ''/''"
proof -
  have "last (nat_str n) \<in> set (nat_str n)" by simp
  then have "last (nat_str n) \<noteq> CHR ''/''" using slash_notin_nat_str by metis
  then show ?thesis by (simp add: tmp_dir_def)
qed

lemma join_tmp_dir:
  "b \<noteq> [] \<Longrightarrow> hd b \<noteq> CHR ''/'' \<Longrightarrow> join (tmp_dir n) b = tmp_dir n @ CHR ''/'' # b"
  using tmp_dir_last [of n] by (simp add: join_def)

lemma base_name_noslash: "CHR ''/'' \<notin> set (base_name orig)"
proof -
  have "prefix (base_name orig) (basename orig)"
    using splitext_append [of "basename orig"] by (metis base_name_def prefixI)
  then show ?thesis using basename_noslash_result [of orig] set_mono_prefix by blast
qed

lemma hd_base_docx: "hd (base_name orig @ ''.docx'') \<noteq> CHR ''/''"
  using base_name_noslash [of orig] by (cases "base_name orig") auto

lemma final_path_in_dir:
  "wd \<noteq> [] \<Longrightarrow> last wd \<noteq> CHR ''/'' \<Longrightarrow>
   join wd (base_name orig @ ''.docx'') = wd @ CHR ''/'' # base_name orig @ ''.docx''"
  using hd_base_docx [of orig] by (simp add: join_plain)

lemma final_path_eq:
  "join (tmp_dir n) (base_name orig @ ''.docx'') = tmp_dir n @ CHR ''/'' # base_name orig @ ''.docx''"
  using tmp_dir_last [of n] by (simp add: final_path_in_dir)

lemma fixed_paths:
  "join (tmp_dir n) ''input.pdf'' = tmp_dir n @ ''/input.pdf''"
  "join (tmp_dir n) ''output.docx'' = tmp_dir n @ ''/output.docx''"
  by (simp_all add: join_tmp_dir)

lemmas convert_run_simps = convert_pdf_to_word_def convert_in_dir_def bind_res_def convert_steps file_ops
  read_input_tmp final_path_eq fixed_paths Let_def

lemma confined_bind:
  assumes m: "confined d m" and f: "\<And>a. confined d (f a)"
  shows "confined d (bind_res m f)"
  unfolding confined_def
proof
  fix w
  let ?R = "\<lambda>w w'. tmp_next w' = tmp_next w \<and> dom (files w) \<subseteq> dom (files w') \<and>
     (\<forall>p. files w' p \<noteq> files w p \<longrightarrow> (\<exists>a. p = d @ CHR ''/'' # a))"
  show "?R w (snd (bind_res m f w))"
  proof (rule bind_res_trans [of "?R"])
    show "\<And>s. ?R s (snd (m s))" using m unfolding confined_def by blast
    show "\<And>a s. ?R s (snd (f a s))" using f unfolding confined_def by blast
    show "\<And>x y z. ?R x y \<Longrightarrow> ?R y z \<Longrightarrow> ?R x z" by (metis subset_trans)
  qed
qed

lemma confined_ret [simp]: "confined d (ret a)" and confined_raise [simp]: "confined d (raise e)"
  by (simp_all add: confined_def ret_def raise_def)

lemma confined_read [simp]: "confined d (read_file p)"
  by (simp add: confined_def read_file_def split: option.splits)

lemma confined_write: "confined d (write_file (d @ CHR ''/'' # a) v)"
  by (auto simp: confined_def write_file_def)



lemma confined_copy: "confined d (copy_file src (d @ CHR ''/'' # a))"
  by (simp add: copy_file_def confined_bind confined_write)

lemma confined_save: "confined d (save_docx (d @ CHR ''/'' # a) doc)"
  by (simp add: save_docx_def confined_write)

lemma confined_load [simp]: "confined d (load_docx p)"
  by (auto simp: load_docx_def intro!: confined_bind split: fentry.splits)

lemma confined_read_input [simp]: "confined d (read_input inp)"
  by (auto simp: read_input_def intro!: confined_bind split: pdf_input.splits option.splits)

lemma confined_steps:
  "confined d (run_converter L p (d @ CHR ''/'' # a))"
  "confined d (style_step (d @ CHR ''/'' # a))"
  "confined d (pdf_links L p)"
  "confined d (append_links_step links (d @ CHR ''/'' # a))"
  by (auto simp: convert_steps confined_save intro!: confined_bind split: sum.splits)

lemma convert_in_dir_confined:
  assumes "wd \<noteq> []" "last wd \<noteq> CHR ''/''"
  shows "confined wd (convert_in_dir L inp wd)"
proof -
  have j: "join wd ''input.pdf'' = wd @ ''/input.pdf''" "join wd ''output.docx'' = wd @ ''/output.docx''"
    using assms by (simp_all add: join_plain)
  show ?thesis
    unfolding convert_in_dir_def Let_def j final_path_in_dir [OF assms]
    by (auto intro!: confined_bind confined_write confined_steps confined_copy)
qed

lemma extract_links_Nil_cond:
  "\<forall>p\<in>set ps. annot_uris (annots p) = [] \<and> findall (page_text p) = [] \<Longrightarrow> extract_links ps = []"
  by (simp add: extract_links_candidates link_candidates_def page_candidates_def)

lemmas path_eval = base_name_def basename_def splitext_def rfind_def splitext_loop.simps

lemma convert_world:
  "tmp_next (snd (convert_pdf_to_word L inp w)) = Suc (tmp_next w) \<and>
   dom (files w) \<subseteq> dom (files (snd (convert_pdf_to_word L inp w))) \<and>
   (\<forall>p. files (snd (convert_pdf_to_word L inp w)) p \<noteq> files w p \<longrightarrow>
        (\<exists>a. p = tmp_dir (tmp_next w) @ CHR ''/'' # a))"
proof -
  let ?w1 = "w\<lparr>tmp_next := Suc (tmp_next w)\<rparr>"
  have eq: "convert_pdf_to_word L inp w = convert_in_dir L inp (tmp_dir (tmp_next w)) ?w1"
    by (simp add: convert_pdf_to_word_def mkdtemp_def bind_res_def)
  have "confined (tmp_dir (tmp_next w)) (convert_in_dir L inp (tmp_dir (tmp_next w)))"
    using tmp_dir_last by (simp add: convert_in_dir_confined)
  then have "tmp_next (snd (convert_in_dir L inp (tmp_dir (tmp_next w)) ?w1)) = tmp_next ?w1"
    "dom (files ?w1) \<subseteq> dom (files (snd (convert_in_dir L inp (tmp_dir (tmp_next w)) ?w1)))"
    "\<forall>p. files (snd (convert_in_dir L inp (tmp_dir (tmp_next w)) ?w1)) p \<noteq> files ?w1 p \<longrightarrow>
        (\<exists>a. p = tmp_dir (tmp_next w) @ CHR ''/'' # a)"
    unfolding confined_def by blast+
  then show ?thesis unfolding eq by simp
qed

lemma tmp_dir_path_inj:
  "tmp_dir n @ CHR ''/'' # a = tmp_dir m @ CHR ''/'' # b \<Longrightarrow> n = m \<and> a = b"
proof -
  assume "tmp_dir n @ CHR ''/'' # a = tmp_dir m @ CHR ''/'' # b"
  then have "nat_str n @ CHR ''/'' # a = nat_str m @ CHR ''/'' # b" by (simp add: tmp_dir_def)
  then have "nat_str n = nat_str m \<and> a = b" using append_sep_eq_iff slash_notin_nat_str by metis
  then show ?thesis using nat_str_inj by blast
qed

lemma convert_result_path:
  assumes "convert_pdf_to_word L inp w = (Inr p, w')"
  shows "p = tmp_dir (tmp_next w) @ CHR ''/'' # base_name (snd (projr (fst (read_input inp w)))) @ ''.docx'' \<and>
         files w' p \<noteq> None"
  using assms
  by (auto simp: convert_run_simps split: sum.splits prod.splits option.splits fentry.splits if_splits)

lemma tmp_fresh_step:
  assumes fresh: "tmp_fresh w" and nxt: "tmp_next w' = Suc (tmp_next w)"
    and frame: "\<forall>p. files w' p \<noteq> files w p \<longrightarrow> (\<exists>b. p = tmp_dir (tmp_next w) @ CHR ''/'' # b)"
  shows "tmp_fresh w'"
  unfolding tmp_fresh_def
proof (intro allI impI)
  fix n a
  assume n: "tmp_next w' \<le> n"
  have "files w' (tmp_dir n @ CHR ''/'' # a) = files w (tmp_dir n @ CHR ''/'' # a)"
  proof (rule ccontr)
    assume "files w' (tmp_dir n @ CHR ''/'' # a) \<noteq> files w (tmp_dir n @ CHR ''/'' # a)"
    then obtain b where "tmp_dir n @ CHR ''/'' # a = tmp_dir (tmp_next w) @ CHR ''/'' # b"
      using frame by blast
    then have "n = tmp_next w" by (rule tmp_dir_path_inj [THEN conjunct1])
    with n nxt show False by simp
  qed
  also have "\<dots> = None"
    using fresh n nxt by (simp add: tmp_fresh_def)
  finally show "files w' (tmp_dir n @ CHR ''/'' # a) = None" .
qed

lemma convert_keeps_tmp_fresh:
  "tmp_fresh w \<Longrightarrow> tmp_fresh (snd (convert_pdf_to_word L inp w))"
  using convert_world [of L inp w] by (blast intro: tmp_fresh_step)

lemma fresh_frame_refl [simp]: "fresh_frame w w"
  by (simp add: fresh_frame_def)

lemma fresh_frame_trans:
  assumes r1: "fresh_frame u v" and r2: "fresh_frame v z"
  shows "fresh_frame u z"
  unfolding fresh_frame_def
proof (intro conjI allI impI)
  show "tmp_next u \<le> tmp_next z" using r1 r2 by (simp add: fresh_frame_def)
  fix q assume q: "files z q \<noteq> files u q"
  show "\<exists>n a. tmp_next u \<le> n \<and> q = tmp_dir n @ CHR ''/'' # a"
  proof (cases "files z q = files v q")
    case True
    then show ?thesis using q r1 by (simp add: fresh_frame_def)
  next
    case False
    then obtain n a where n: "tmp_next v \<le> n" "q = tmp_dir n @ CHR ''/'' # a"
      using r2 by (auto simp: fresh_frame_def)
    have "tmp_next u \<le> n" using n(1) r1 by (simp add: fresh_frame_def)
    with n(2) show ?thesis by (intro exI [of _ n] exI [of _ a]) simp
  qed
qed

lemma convert_fresh_frame: "fresh_frame w (snd (convert_pdf_to_word L inp w))"
  using convert_world [of L inp w] by (fastforce simp: fresh_frame_def)

text \<open>A file that exists before a framed change, in a world whose future
  directories are still empty, is not touched.\<close>

lemma fresh_frame_keeps:
  assumes "tmp_fresh w" "fresh_frame w w'" "files w q \<noteq> None"
  shows "files w' q = files w q"
proof (rule ccontr)
  assume "files w' q \<noteq> files w q"
  then obtain n a where "tmp_next w \<le> n" "q = tmp_dir n @ CHR ''/'' # a"
    using assms(2) by (auto simp: fresh_frame_def)
  then show False using assms(1,3) by (simp add: tmp_fresh_def)
qed

lemma convert_success:
  assumes "convert_pdf_to_word L inp w = (Inr p, w')"
  shows "\<exists>data orig cdoc ps. fst (read_input inp w) = Inr (data, orig) \<and>
           lib_convert L data = Inr cdoc \<and> lib_pages L data = Inr ps"
  using assms
  by (auto simp: convert_run_simps split: sum.splits prod.splits option.splits fentry.splits if_splits)

lemma convert_output_doc:
  assumes "convert_pdf_to_word L inp w = (Inr p, w')"
  shows "\<exists>cdoc links. files w' p =
           Some (DocxFile (if links = [] then style_tables cdoc else add_link_page links (style_tables cdoc)))"
proof -
  obtain data orig cdoc ps where r: "fst (read_input inp w) = Inr (data, orig)"
      "lib_convert L data = Inr cdoc" "lib_pages L data = Inr ps"
    using convert_success [OF assms] by blast
  have "files w' p = Some (DocxFile (if extract_links ps = [] then style_tables cdoc
                                      else add_link_page (extract_links ps) (style_tables cdoc)))"
    using assms r by (auto simp: convert_run_simps split: if_splits)
  then show ?thesis by blast
qed

subsection \<open>Properties of one conversion\<close>

text \<open>
  Claim C1: when the upload can be read, both libraries succeed and the base
  name is not \<open>output\<close>, the conversion returns
  \<open><workdir>/<base_name>.docx\<close>, and that file holds the converted
  document with every table styled \<open>Table Grid\<close> and, when the PDF has
  links, the link page appended.
\<close>

theorem convert_pdf_to_word_ok:
  assumes inp: "fst (read_input inp w) = Inr (data, orig)"
    and conv: "lib_convert L data = Inr cdoc" and pages: "lib_pages L data = Inr ps"
    and name: "base_name orig \<noteq> ''output''"
  shows "\<exists>w'. convert_pdf_to_word L inp w =
                (Inr (tmp_dir (tmp_next w) @ ''/'' @ base_name orig @ ''.docx''), w') \<and>
              files w' (tmp_dir (tmp_next w) @ ''/'' @ base_name orig @ ''.docx'') =
                Some (DocxFile (if extract_links ps = [] then style_tables cdoc
                                else add_link_page (extract_links ps) (style_tables cdoc)))"
  using assms by (simp add: convert_run_simps)

text \<open>
  Claim C13: for a PDF with no hyperlink annotation and no URL-shaped text, the
  output document is the converted document with its tables styled and no page
  added.
\<close>

theorem convert_no_link_page:
  assumes inp: "fst (read_input inp w) = Inr (data, orig)"
    and conv: "lib_convert L data = Inr cdoc" and pages: "lib_pages L data = Inr ps"
    and name: "base_name orig \<noteq> ''output''"
    and nolinks: "\<forall>p\<in>set ps. annot_uris (annots p) = [] \<and> findall (page_text p) = []"
  shows "\<exists>w'. convert_pdf_to_word L inp w =
                (Inr (tmp_dir (tmp_next w) @ ''/'' @ base_name orig @ ''.docx''), w') \<and>
              files w' (tmp_dir (tmp_next w) @ ''/'' @ base_name orig @ ''.docx'') =
                Some (DocxFile (style_tables cdoc))"
proof -
  have "extract_links ps = []"
    using nolinks by (rule extract_links_Nil_cond)
  with assms show ?thesis by (simp add: convert_run_simps)
qed

text \<open>
  Claim C19: an upload that is neither a readable stream, a dictionary with a
  \<open>name\<close> key, nor a path string raises \<open>ValueError\<close>; the working
  directory has already been created.
\<close>

theorem convert_unsupported_input:
  assumes "inp = OtherIn \<or> (\<exists>kv. inp = DictIn kv \<and> map_of kv ''name'' = None)"
  shows "convert_pdf_to_word L inp w =
           (Inl (ValueError ''Unsupported input type''), w\<lparr>tmp_next := Suc (tmp_next w)\<rparr>)"
  using assms by (auto simp: convert_run_simps read_input_def)

text \<open>
  Claim C20: a path that names no file raises \<open>FileNotFoundError\<close> for
  that path.
\<close>

theorem convert_missing_file:
  assumes "files w p = None"
  shows "convert_pdf_to_word L (PathIn p) w =
           (Inl (FileNotFoundError p), w\<lparr>tmp_next := Suc (tmp_next w)\<rparr>)"
  using assms by (simp add: convert_run_simps read_input_def)

text \<open>
  Claim C14: an upload whose base name is \<open>output\<close> (such as
  \<open>output.pdf\<close>) fails even when both libraries succeed: its final path is
  the temporary \<open>output.docx\<close> itself, and \<open>shutil.copy\<close> raises
  \<open>SameFileError\<close>.
\<close>

theorem convert_output_name_fails:
  assumes inp: "fst (read_input inp w) = Inr (data, orig)"
    and conv: "lib_convert L data = Inr cdoc" and pages: "lib_pages L data = Inr ps"
    and name: "base_name orig = ''output''"
  shows "fst (convert_pdf_to_word L inp w) =
           Inl (SameFileError (tmp_dir (tmp_next w) @ ''/output.docx'') (tmp_dir (tmp_next w) @ ''/output.docx''))"
  using assms by (simp add: convert_run_simps)

text \<open>
  Claim C15: a stream upload without a \<open>name\<close> attribute is named
  \<open>output.pdf\<close> by default, and its conversion therefore always fails
  with \<open>SameFileError\<close>.
\<close>

theorem convert_unnamed_stream_fails:
  assumes conv: "lib_convert L data = Inr cdoc" and pages: "lib_pages L data = Inr ps"
  shows "fst (convert_pdf_to_word L (Stream data None) w) =
           Inl (SameFileError (tmp_dir (tmp_next w) @ ''/output.docx'') (tmp_dir (tmp_next w) @ ''/output.docx''))"
proof -
  have "base_name ''output.pdf'' = ''output''"
    by (simp add: path_eval)
  with assms show ?thesis by (simp add: convert_run_simps read_input_def)
qed

text \<open>
  Claim C21: an exception of the layout converter, or of the PDF reader after a
  successful conversion, propagates unchanged to the caller.
\<close>

theorem convert_library_errors:
  assumes inp: "fst (read_input inp w) = Inr (data, orig)"
    and fails: "lib_convert L data = Inl e \<or> (lib_convert L data = Inr cdoc \<and> lib_pages L data = Inl e)"
  shows "fst (convert_pdf_to_word L inp w) = Inl e"
  using fails
proof
  assume "lib_convert L data = Inl e"
  with inp show ?thesis by (simp add: convert_run_simps)
next
  assume "lib_convert L data = Inr cdoc \<and> lib_pages L data = Inl e"
  with inp show ?thesis by (simp add: convert_run_simps)
qed





text \<open>
  Claim C11: the base name of the output file is the base name of the upload,
  so the output keeps the upload's name, exactly when that name has a character
  other than a dot; a name made of dots only (or empty, as for a path ending in
  a slash) becomes a leading-dot file name that \<open>splitext\<close> does not split.
\<close>

theorem output_base_name_roundtrip:
  "base_name (tmp_dir n @ ''/'' @ base_name orig @ ''.docx'') = base_name orig \<longleftrightarrow>
     (\<exists>c\<in>set (base_name orig). c \<noteq> CHR ''.'')"
proof -
  let ?b = "base_name orig"
  have nos: "CHR ''/'' \<notin> set ?b" by (rule base_name_noslash)
  have bn: "basename (tmp_dir n @ ''/'' @ ?b @ ''.docx'') = ?b @ CHR ''.'' # ''docx''"
    using nos basename_slash [of "?b @ ''.docx''" "tmp_dir n"] by simp
  have top: "base_name (tmp_dir n @ ''/'' @ ?b @ ''.docx'') = fst (splitext (?b @ CHR ''.'' # ''docx''))"
    unfolding base_name_def [of "tmp_dir n @ ''/'' @ ?b @ ''.docx''"] bn by (rule refl)
  show ?thesis
  proof (cases "\<exists>c\<in>set ?b. c \<noteq> CHR ''.''")
    case True
    then have "splitext (?b @ CHR ''.'' # ''docx'') = (?b, CHR ''.'' # ''docx'')"
      using nos by (intro splitext_name_ext) simp_all
    with True top show ?thesis by simp
  next
    case False
    then have "splitext (?b @ CHR ''.'' # ''docx'') = (?b @ CHR ''.'' # ''docx'', '''')"
      using nos by (intro splitext_dots_only) simp_all
    with False top show ?thesis by simp
  qed
qed

text \<open>
  Claim C9: whenever a conversion succeeds, the returned path holds a Word
  document, and every table of its \<open>doc.tables\<close> (the tables of the body,
  not those nested in cells) has the style \<open>Table Grid\<close>; the link page
  adds no table.
\<close>

theorem convert_output_styled:
  assumes "convert_pdf_to_word L inp w = (Inr p, w')"
  shows "\<exists>doc. files w' p = Some (DocxFile doc) \<and>
           (\<forall>t\<in>set (tables doc). table_style t = Some ''Table Grid'')"
proof -
  obtain cdoc links where f: "files w' p =
      Some (DocxFile (if links = [] then style_tables cdoc else add_link_page links (style_tables cdoc)))"
    using convert_output_doc [OF assms] by blast
  show ?thesis
    using f by (cases "links = []") (auto intro: style_tables_styled)
qed

text \<open>
  Claim C29: step 4 styles only the tables of \<open>doc.tables\<close>: the tables that
  the converter nested in cells reach the output exactly as the converter left
  them, with their own style or none, although the specification has every
  table of the document styled.
\<close>

theorem convert_nested_tables_kept:
  assumes inp: "fst (read_input inp w) = Inr (data, orig)"
    and conv: "lib_convert L data = Inr cdoc" and pages: "lib_pages L data = Inr ps"
    and name: "base_name orig \<noteq> ''output''"
  shows "\<exists>w' doc. convert_pdf_to_word L inp w =
                (Inr (tmp_dir (tmp_next w) @ ''/'' @ base_name orig @ ''.docx''), w') \<and>
              files w' (tmp_dir (tmp_next w) @ ''/'' @ base_name orig @ ''.docx'') = Some (DocxFile doc) \<and>
              doc_nested_tables doc = doc_nested_tables cdoc"
  using assms by (simp add: convert_run_simps)

subsection \<open>Witnesses\<close>

theorem convert_pdf_to_word_ok_witness:
  "\<exists>w'. convert_pdf_to_word
          \<lparr>lib_convert = (\<lambda>_. Inr \<lparr>body = [Table None []]\<rparr>),
           lib_pages = (\<lambda>_. Inr [\<lparr>annots = [Some ''http://a.org''], page_text = ''''\<rparr>])\<rparr>
          (PathIn ''/up/report.pdf'') \<lparr>files = [''/up/report.pdf'' \<mapsto> RawFile [1]], tmp_next = 0\<rparr> =
        (Inr ''/tmp/tmp0/report.docx'', w') \<and>
      files w' ''/tmp/tmp0/report.docx'' =
        Some (DocxFile \<lparr>body = [Table (Some ''Table Grid'') [], PageBreak,
                                  Heading ''Daftar Link'' 2, Paragraph ''http://a.org'']\<rparr>)"
proof -
  have r: "fst (read_input (PathIn ''/up/report.pdf'') \<lparr>files = [''/up/report.pdf'' \<mapsto> RawFile [1]], tmp_next = 0\<rparr>)
           = Inr (RawFile [1], ''/up/report.pdf'')"
    by (simp add: read_input_def file_ops bind_res_def)
  have b: "base_name ''/up/report.pdf'' = ''report''" by (simp add: path_eval)
  have l: "extract_links [\<lparr>annots = [Some ''http://a.org''], page_text = ''''\<rparr>] = [''http://a.org'']"
    by (simp add: links_eval)
  show ?thesis
    using convert_pdf_to_word_ok [OF r, where
        L = "\<lparr>lib_convert = (\<lambda>_. Inr \<lparr>body = [Table None []]\<rparr>),
          lib_pages = (\<lambda>_. Inr [\<lparr>annots = [Some ''http://a.org''], page_text = ''''\<rparr>])\<rparr>"
        and cdoc = "\<lparr>body = [Table None []]\<rparr>"
        and ps = "[\<lparr>annots = [Some ''http://a.org''], page_text = ''''\<rparr>]"]
    by (simp add: b l tmp_dir_def nat_str.simps digit_chars_def style_tables_def add_link_page_def add_heading_def
        add_page_break_def add_paragraph_def)
qed

theorem convert_no_link_page_witness:
  "\<exists>w'. convert_pdf_to_word
          \<lparr>lib_convert = (\<lambda>_. Inr \<lparr>body = [Paragraph ''x'']\<rparr>),
           lib_pages = (\<lambda>_. Inr [\<lparr>annots = [None], page_text = ''plain text''\<rparr>])\<rparr>
          (DictIn [(''name'', ''a.pdf'')]) \<lparr>files = [''a.pdf'' \<mapsto> RawFile []], tmp_next = 7\<rparr> =
        (Inr ''/tmp/tmp7/a.docx'', w') \<and>
      files w' ''/tmp/tmp7/a.docx'' = Some (DocxFile \<lparr>body = [Paragraph ''x'']\<rparr>)"
proof -
  have r: "fst (read_input (DictIn [(''name'', ''a.pdf'')]) \<lparr>files = [''a.pdf'' \<mapsto> RawFile []], tmp_next = 7\<rparr>)
           = Inr (RawFile [], ''a.pdf'')"
    by (simp add: read_input_def file_ops bind_res_def)
  have b: "base_name ''a.pdf'' = ''a''" by (simp add: path_eval)
  have "findall ''plain text'' = []" by (simp add: url_scan_eval)
  then show ?thesis
    using convert_no_link_page [OF r, where
        L = "\<lparr>lib_convert = (\<lambda>_. Inr \<lparr>body = [Paragraph ''x'']\<rparr>),
              lib_pages = (\<lambda>_. Inr [\<lparr>annots = [None], page_text = ''plain text''\<rparr>])\<rparr>"
        and cdoc = "\<lparr>body = [Paragraph ''x'']\<rparr>"
        and ps = "[\<lparr>annots = [None], page_text = ''plain text''\<rparr>]"]
    by (simp add: b tmp_dir_def nat_str.simps digit_chars_def style_tables_def)
qed

theorem convert_unsupported_input_witness:
  "convert_pdf_to_word (\<lparr>lib_convert = (\<lambda>_. Inr \<lparr>body = []\<rparr>), lib_pages = (\<lambda>_. Inr [])\<rparr>) OtherIn \<lparr>files = Map.empty, tmp_next = 0\<rparr> =
     (Inl (ValueError ''Unsupported input type''), \<lparr>files = Map.empty, tmp_next = 1\<rparr>)"
  using convert_unsupported_input [of OtherIn "\<lparr>lib_convert = (\<lambda>_. Inr \<lparr>body = []\<rparr>), lib_pages = (\<lambda>_. Inr [])\<rparr>" "\<lparr>files = Map.empty, tmp_next = 0\<rparr>"] by simp

theorem convert_missing_file_witness:
  "convert_pdf_to_word (\<lparr>lib_convert = (\<lambda>_. Inr \<lparr>body = []\<rparr>), lib_pages = (\<lambda>_. Inr [])\<rparr>) (PathIn ''/up/gone.pdf'') \<lparr>files = Map.empty, tmp_next = 0\<rparr> =
     (Inl (FileNotFoundError ''/up/gone.pdf''), \<lparr>files = Map.empty, tmp_next = 1\<rparr>)"
  using convert_missing_file [of "\<lparr>files = Map.empty, tmp_next = 0\<rparr>" "''/up/gone.pdf''" "\<lparr>lib_convert = (\<lambda>_. Inr \<lparr>body = []\<rparr>), lib_pages = (\<lambda>_. Inr [])\<rparr>"] by simp

theorem convert_output_name_fails_witness:
  "fst (convert_pdf_to_word \<lparr>lib_convert = (\<lambda>_. Inr \<lparr>body = []\<rparr>), lib_pages = (\<lambda>_. Inr [])\<rparr>
          (PathIn ''/up/output.pdf'') \<lparr>files = [''/up/output.pdf'' \<mapsto> RawFile []], tmp_next = 0\<rparr>) =
     Inl (SameFileError ''/tmp/tmp0/output.docx'' ''/tmp/tmp0/output.docx'')"
proof -
  have r: "fst (read_input (PathIn ''/up/output.pdf'') \<lparr>files = [''/up/output.pdf'' \<mapsto> RawFile []], tmp_next = 0\<rparr>)
           = Inr (RawFile [], ''/up/output.pdf'')"
    by (simp add: read_input_def file_ops bind_res_def)
  have b: "base_name ''/up/output.pdf'' = ''output''" by (simp add: path_eval)
  show ?thesis
    using convert_output_name_fails [OF r, where
        L = "\<lparr>lib_convert = (\<lambda>_. Inr \<lparr>body = []\<rparr>), lib_pages = (\<lambda>_. Inr [])\<rparr>"
        and cdoc = "\<lparr>body = []\<rparr>" and ps = "[]"]
    by (simp add: b tmp_dir_def nat_str.simps digit_chars_def)
qed

theorem convert_unnamed_stream_fails_witness:
  "fst (convert_pdf_to_word \<lparr>lib_convert = (\<lambda>_. Inr \<lparr>body = []\<rparr>), lib_pages = (\<lambda>_. Inr [])\<rparr>
          (Stream (RawFile [37, 80]) None) \<lparr>files = Map.empty, tmp_next = 3\<rparr>) =
     Inl (SameFileError ''/tmp/tmp3/output.docx'' ''/tmp/tmp3/output.docx'')"
  using convert_unnamed_stream_fails [where
      L = "\<lparr>lib_convert = (\<lambda>_. Inr \<lparr>body = []\<rparr>), lib_pages = (\<lambda>_. Inr [])\<rparr>"
      and cdoc = "\<lparr>body = []\<rparr>" and ps = "[]" and data = "RawFile [37, 80]"
      and w = "\<lparr>files = Map.empty, tmp_next = 3\<rparr>"]
  by (simp add: tmp_dir_def nat_str.simps digit_chars_def)

theorem convert_library_errors_witness:
  "fst (convert_pdf_to_word \<lparr>lib_convert = (\<lambda>_. Inl (ConverterError ''bad xref'')), lib_pages = (\<lambda>_. Inr [])\<rparr>
          (Stream (RawFile []) (Some ''x.pdf'')) \<lparr>files = Map.empty, tmp_next = 0\<rparr>) =
     Inl (ConverterError ''bad xref'')"
proof -
  have r: "fst (read_input (Stream (RawFile []) (Some ''x.pdf'')) \<lparr>files = Map.empty, tmp_next = 0\<rparr>)
           = Inr (RawFile [], ''x.pdf'')"
    by (simp add: read_input_def ret_def)
  show ?thesis
    using convert_library_errors [OF r, where
        L = "\<lparr>lib_convert = (\<lambda>_. Inl (ConverterError ''bad xref'')), lib_pages = (\<lambda>_. Inr [])\<rparr>"
        and e = "ConverterError ''bad xref''"]
    by simp
qed




theorem output_base_name_roundtrip_witness:
  "base_name (tmp_dir 0 @ ''/'' @ ''report'' @ ''.docx'') = ''report''"
proof -
  have b: "base_name ''/up/report.pdf'' = ''report''" by (simp add: path_eval)
  show ?thesis using output_base_name_roundtrip [of 0 "''/up/report.pdf''"] unfolding b by simp
qed


theorem convert_output_styled_witness:
  "\<exists>w' doc. convert_pdf_to_word
          \<lparr>lib_convert = (\<lambda>_. Inr \<lparr>body = [Table None [[[Paragraph ''x'']]]]\<rparr>), lib_pages = (\<lambda>_. Inr [])\<rparr>
          (PathIn ''/up/report.pdf'') \<lparr>files = [''/up/report.pdf'' \<mapsto> RawFile [1]], tmp_next = 0\<rparr> =
        (Inr ''/tmp/tmp0/report.docx'', w') \<and>
      files w' ''/tmp/tmp0/report.docx'' = Some (DocxFile doc) \<and>
      (\<forall>t\<in>set (tables doc). table_style t = Some ''Table Grid'')"
proof -
  have b: "base_name ''/up/report.pdf'' = ''report''" by (simp add: path_eval)
  have t: "tmp_dir 0 = ''/tmp/tmp0''" by (simp add: tmp_dir_def nat_str.simps digit_chars_def)
  obtain w' where c: "convert_pdf_to_word
          \<lparr>lib_convert = (\<lambda>_. Inr \<lparr>body = [Table None [[[Paragraph ''x'']]]]\<rparr>), lib_pages = (\<lambda>_. Inr [])\<rparr>
          (PathIn ''/up/report.pdf'') \<lparr>files = [''/up/report.pdf'' \<mapsto> RawFile [1]], tmp_next = 0\<rparr> =
        (Inr ''/tmp/tmp0/report.docx'', w')"
    by (atomize_elim) (simp add: convert_run_simps read_input_def b t extract_links_def join_def)
  show ?thesis using convert_output_styled [OF c] c by blast
qed


theorem convert_nested_tables_kept_witness:
  "\<exists>w' doc. convert_pdf_to_word
          \<lparr>lib_convert = (\<lambda>_. Inr \<lparr>body = [Table None [[[Table None [[[Paragraph ''x'']]]]]]]\<rparr>),
           lib_pages = (\<lambda>_. Inr [])\<rparr>
          (PathIn ''/up/report.pdf'') \<lparr>files = [''/up/report.pdf'' \<mapsto> RawFile [1]], tmp_next = 0\<rparr> =
        (Inr (tmp_dir 0 @ ''/'' @ ''report'' @ ''.docx''), w') \<and>
      files w' (tmp_dir 0 @ ''/'' @ ''report'' @ ''.docx'') = Some (DocxFile doc) \<and>
      doc_nested_tables doc = [Table None [[[Paragraph ''x'']]]]"
proof -
  have r: "fst (read_input (PathIn ''/up/report.pdf'') \<lparr>files = [''/up/report.pdf'' \<mapsto> RawFile [1]], tmp_next = 0\<rparr>)
           = Inr (RawFile [1], ''/up/report.pdf'')"
    by (simp add: read_input_def file_ops bind_res_def)
  have b: "base_name ''/up/report.pdf'' = ''report''" by (simp add: path_eval)
  have n: "doc_nested_tables \<lparr>body = [Table None [[[Table None [[[Paragraph ''x'']]]]]]]\<rparr> =
      [Table None [[[Paragraph ''x'']]]]"
    by (simp add: doc_nested_tables_def)
  show ?thesis
    using convert_nested_tables_kept [OF r, where
        L = "\<lparr>lib_convert = (\<lambda>_. Inr \<lparr>body = [Table None [[[Table None [[[Paragraph ''x'']]]]]]]\<rparr>),
          lib_pages = (\<lambda>_. Inr [])\<rparr>"
        and cdoc = "\<lparr>body = [Table None [[[Table None [[[Paragraph ''x'']]]]]]]\<rparr>" and ps = "[]"]
    unfolding b n by simp
qed

end
