(* ===== verification/Batch.thy ===== *)
theory Batch
  imports Convert
begin

text \<open>
  \<open>convert_and_enable\<close> of \<open>src/app.py\<close> (lines 86--102) and
  \<open>reset_download\<close> (lines 104--108). The batch converts the uploads one after
  the other (the list comprehension of line 92, which stops at the first
  exception); with more than one output it creates a fresh directory, opens
  \<open>converted_docs.zip\<close> there (the file exists from the moment it is opened)
  and adds each output under its base name; otherwise it returns
  \<open>out_paths[0]\<close>, which raises \<open>IndexError\<close> on an empty batch. The
  result is the \<open>gr.update\<close> of the download button, a \<open>button\<close> record.
\<close>

record button =
  dl_value :: "path option"
  dl_interactive :: bool

fun convert_all :: "libs \<Rightarrow> pdf_input list \<Rightarrow> (world, path list) res" where
  "convert_all L [] = ret []"
| "convert_all L (pdf # pdfs) =
     bind_res (convert_pdf_to_word L pdf) (\<lambda>p.
     bind_res (convert_all L pdfs) (\<lambda>ps. ret (p # ps)))"

text \<open>\<open>for p in out_paths: zf.write(p, arcname=os.path.basename(p))\<close>; the
  archive on disk grows by one entry per call.\<close>

fun zip_write :: "path \<Rightarrow> (string \<times> fentry) list \<Rightarrow> path list \<Rightarrow> (world, unit) res" where
  "zip_write zip_path entries [] = ret ()"
| "zip_write zip_path entries (p # ps) =
     bind_res (read_file p) (\<lambda>v.
     bind_res (write_file zip_path (ZipFile (entries @ [(basename p, v)]))) (\<lambda>_.
     zip_write zip_path (entries @ [(basename p, v)]) ps))"

definition package_outputs :: "path list \<Rightarrow> (world, path) res" where
  "package_outputs out_paths =
     (if 1 < length out_paths then
        bind_res mkdtemp (\<lambda>zip_dir.
          let zip_path = join zip_dir ''converted_docs.zip''
          in bind_res (write_file zip_path (ZipFile [])) (\<lambda>_.
             bind_res (zip_write zip_path [] out_paths) (\<lambda>_.
             ret zip_path)))
      else (case out_paths of
              [] \<Rightarrow> raise (IndexError ''list index out of range'')
            | p # _ \<Rightarrow> ret p))"

definition convert_and_enable :: "libs \<Rightarrow> pdf_input list \<Rightarrow> (world, button) res" where
  "convert_and_enable L pdf_files =
     bind_res (convert_all L pdf_files) (\<lambda>out_paths.
     bind_res (package_outputs out_paths) (\<lambda>v.
     ret \<lparr>dl_value = Some v, dl_interactive = True\<rparr>))"

definition reset_download :: button where
  "reset_download = \<lparr>dl_value = None, dl_interactive = False\<rparr>"


subsection \<open>Lemmas on the batch\<close>

lemma convert_all_Cons_Inl:
  "convert_pdf_to_word L pdf w = (Inl e, w1) \<Longrightarrow> convert_all L (pdf # pdfs) w = (Inl e, w1)"
  by (simp add: bind_res_def)

lemma convert_all_Cons_Inr:
  "convert_all L (x # xs) w = (Inr ps, w') \<Longrightarrow>
   \<exists>p w1 qs. convert_pdf_to_word L x w = (Inr p, w1) \<and> convert_all L xs w1 = (Inr qs, w') \<and> ps = p # qs"
  by (auto simp: bind_res_def ret_def split: prod.splits sum.splits)

lemma convert_all_paths:
  "convert_all L xs w = (Inr ps, w') \<Longrightarrow>
     length ps = length xs \<and> tmp_next w' = tmp_next w + length xs \<and>
     dom (files w) \<subseteq> dom (files w') \<and>
     (\<forall>i<length ps. \<exists>a. ps ! i = tmp_dir (tmp_next w + i) @ CHR ''/'' # a) \<and>
     (\<forall>p\<in>set ps. files w' p \<noteq> None)"
proof (induction xs arbitrary: w ps w')
  case Nil
  then show ?case by (simp add: ret_def)
next
  case (Cons x xs)
  obtain p w1 qs where c1: "convert_pdf_to_word L x w = (Inr p, w1)"
      and c2: "convert_all L xs w1 = (Inr qs, w')" and ps: "ps = p # qs"
    using convert_all_Cons_Inr [OF Cons.prems] by blast
  note IH = Cons.IH [OF c2]
  have p: "p = tmp_dir (tmp_next w) @ CHR ''/'' # base_name (snd (projr (fst (read_input x w)))) @ ''.docx''"
      "files w1 p \<noteq> None"
    using convert_result_path [OF c1] by blast+
  note cw = convert_world [of L x w]
  have world: "tmp_next w1 = Suc (tmp_next w)" "dom (files w) \<subseteq> dom (files w1)"
    using cw [THEN conjunct1] cw [THEN conjunct2, THEN conjunct1] c1 by simp_all
  have loc: "\<forall>i<length ps. \<exists>a. ps ! i = tmp_dir (tmp_next w + i) @ CHR ''/'' # a"
  proof (intro allI impI)
    fix i assume i: "i < length ps"
    show "\<exists>a. ps ! i = tmp_dir (tmp_next w + i) @ CHR ''/'' # a"
    proof (cases i)
      case 0
      then show ?thesis using p(1) ps by simp
    next
      case (Suc j)
      then have "j < length qs" using i ps by simp
      then obtain a where "qs ! j = tmp_dir (tmp_next w1 + j) @ CHR ''/'' # a" using IH by blast
      then show ?thesis using Suc ps world(1) by simp
    qed
  qed
  have "p \<in> dom (files w')" using p(2) IH by blast
  then have pw: "files w' p \<noteq> None" by blast
  have dom: "dom (files w) \<subseteq> dom (files w')" using world(2) IH by (meson subset_trans)
  show ?case
  proof (intro conjI)
    show "length ps = length (x # xs)" using IH ps by simp
    show "tmp_next w' = tmp_next w + length (x # xs)" using IH world(1) by simp
    show "dom (files w) \<subseteq> dom (files w')" by (rule dom)
    show "\<forall>i<length ps. \<exists>a. ps ! i = tmp_dir (tmp_next w + i) @ CHR ''/'' # a" by (rule loc)
    show "\<forall>q\<in>set ps. files w' q \<noteq> None" using IH pw ps by simp
  qed
qed
text \<open>A batch changes files only in directories it creates.\<close>

lemma convert_all_frame: "fresh_frame w (snd (convert_all L xs w))"
proof (induction xs arbitrary: w)
  case (Cons x xs)
  have r: "fresh_frame s (snd (bind_res (convert_all L xs) (\<lambda>ps. ret (p # ps)) s))" for p s
    by (rule bind_res_trans [of fresh_frame, OF Cons.IH _ fresh_frame_trans]) simp
  show ?case unfolding convert_all.simps
    by (rule bind_res_trans [of fresh_frame, OF convert_fresh_frame r fresh_frame_trans])
qed simp

lemma convert_all_styled:
  "convert_all L xs w = (Inr ps, w') \<Longrightarrow>
     \<forall>p\<in>set ps. \<exists>doc. files w' p = Some (DocxFile doc) \<and> doc_tables_styled doc"
proof (induction xs arbitrary: w ps w')
  case Nil
  then show ?case by (simp add: ret_def)
next
  case (Cons x xs)
  obtain p w1 qs where c1: "convert_pdf_to_word L x w = (Inr p, w1)"
      and c2: "convert_all L xs w1 = (Inr qs, w')" and ps: "ps = p # qs"
    using convert_all_Cons_Inr [OF Cons.prems] by blast
  obtain cdoc links where f1: "files w1 p =
      Some (DocxFile (if links = [] then style_tables cdoc else add_link_page links (style_tables cdoc)))"
    using convert_output_doc [OF c1] by blast
  obtain b where pdir: "p = tmp_dir (tmp_next w) @ CHR ''/'' # b"
    using convert_result_path [OF c1] by blast
  have nxt: "tmp_next w1 = Suc (tmp_next w)" using convert_world [of L x w] c1 by simp
  have same: "files w' p = files w1 p"
  proof (rule ccontr)
    assume "files w' p \<noteq> files w1 p"
    then obtain n a where n: "tmp_next w1 \<le> n" "p = tmp_dir n @ CHR ''/'' # a"
      using convert_all_frame [of w1 L xs] c2 by (auto simp: fresh_frame_def)
    then have "tmp_next w = n" using pdir tmp_dir_path_inj by metis
    with n(1) nxt show False by simp
  qed
  have "\<exists>doc. files w' p = Some (DocxFile doc) \<and> doc_tables_styled doc"
    using same f1 styled_output [of links cdoc] by auto
  with Cons.IH [OF c2] ps show ?case by simp
qed

lemma zip_write_ok:
  assumes "zp \<notin> set ps" "\<forall>p\<in>set ps. files w p \<noteq> None" "ps \<noteq> []"
  shows "zip_write zp acc ps w =
           (Inr (), w\<lparr>files := (files w)(zp \<mapsto> ZipFile (acc @ map (\<lambda>p. (basename p, the (files w p))) ps))\<rparr>)"
  using assms
proof (induction ps arbitrary: acc w)
  case Nil
  then show ?case by simp
next
  case (Cons p ps)
  obtain v where v: "files w p = Some v" using Cons.prems(2) by auto
  let ?w1 = "w\<lparr>files := (files w)(zp \<mapsto> ZipFile (acc @ [(basename p, v)]))\<rparr>"
  have step: "zip_write zp acc (p # ps) w = zip_write zp (acc @ [(basename p, v)]) ps ?w1"
    using v by (simp add: bind_res_def read_file_def write_file_def)
  show ?case
  proof (cases "ps = []")
    case True
    then show ?thesis using step v by (simp add: ret_def fun_upd_def)
  next
    case False
    have same: "\<forall>q\<in>set ps. files ?w1 q = files w q" using Cons.prems(1) by auto
    have ih: "zip_write zp (acc @ [(basename p, v)]) ps ?w1 =
        (Inr (), ?w1\<lparr>files := (files ?w1)(zp \<mapsto> ZipFile ((acc @ [(basename p, v)]) @
            map (\<lambda>q. (basename q, the (files ?w1 q))) ps))\<rparr>)"
    proof (rule Cons.IH)
      show "zp \<notin> set ps" using Cons.prems(1) by simp
      show "\<forall>q\<in>set ps. files ?w1 q \<noteq> None" using Cons.prems(2) same by simp
      show "ps \<noteq> []" by (rule False)
    qed
    have m: "map (\<lambda>q. (basename q, the (files ?w1 q))) ps = map (\<lambda>q. (basename q, the (files w q))) ps"
      using same by simp
    show ?thesis unfolding step ih m using v by (cases w) (simp add: fun_eq_iff)
  qed
qed

lemma confined_zip_write: "confined d (zip_write (d @ CHR ''/'' # a) acc ps)"
  by (induction ps arbitrary: acc) (auto intro!: confined_bind confined_write)

lemma package_confined:
  assumes "1 < length ps"
  shows "tmp_next (snd (package_outputs ps w)) = Suc (tmp_next w) \<and>
    dom (files w) \<subseteq> dom (files (snd (package_outputs ps w))) \<and>
    (\<forall>p. files (snd (package_outputs ps w)) p \<noteq> files w p \<longrightarrow> (\<exists>a. p = tmp_dir (tmp_next w) @ CHR ''/'' # a))"
proof -
  let ?d = "tmp_dir (tmp_next w)"
  let ?zp = "?d @ ''/converted_docs.zip''"
  let ?w1 = "w\<lparr>tmp_next := Suc (tmp_next w)\<rparr>"
  have j: "join ?d ''converted_docs.zip'' = ?zp"
    by (simp add: join_tmp_dir)
  have eq: "package_outputs ps w =
      bind_res (write_file ?zp (ZipFile [])) (\<lambda>_. bind_res (zip_write ?zp [] ps) (\<lambda>_. ret ?zp)) ?w1"
    using assms by (simp add: package_outputs_def mkdtemp_def bind_res_def j Let_def)
  have "confined ?d (bind_res (write_file ?zp (ZipFile [])) (\<lambda>_. bind_res (zip_write ?zp [] ps) (\<lambda>_. ret ?zp)))"
    by (intro confined_bind confined_ret) (simp_all only: append.simps append_Cons confined_write confined_zip_write)
  then have c: "tmp_next (snd (package_outputs ps w)) = tmp_next ?w1 \<and>
      dom (files ?w1) \<subseteq> dom (files (snd (package_outputs ps w))) \<and>
      (\<forall>p. files (snd (package_outputs ps w)) p \<noteq> files ?w1 p \<longrightarrow> (\<exists>a. p = ?d @ CHR ''/'' # a))"
    unfolding confined_def eq by (rule spec)
  then show ?thesis by simp
qed

lemma package_small: "\<not> 1 < length ps \<Longrightarrow> snd (package_outputs ps w) = w"
  by (simp add: package_outputs_def ret_def raise_def split: list.splits)

lemma package_world:
  assumes fresh: "tmp_fresh w"
  shows "tmp_fresh (snd (package_outputs ps w))"
proof (cases "1 < length ps")
  case True
  note c = package_confined [OF True, of w]
  show ?thesis
  proof (rule tmp_fresh_step [OF fresh])
    show "tmp_next (snd (package_outputs ps w)) = Suc (tmp_next w)"
      using c by simp
    show "\<forall>p. files (snd (package_outputs ps w)) p \<noteq> files w p \<longrightarrow>
        (\<exists>b. p = tmp_dir (tmp_next w) @ CHR ''/'' # b)"
      using c [THEN conjunct2, THEN conjunct2] by simp
  qed
next
  case False
  with fresh show ?thesis by (simp add: package_small)
qed

lemma convert_all_fresh: "tmp_fresh w \<Longrightarrow> tmp_fresh (snd (convert_all L xs w))"
proof (induction xs arbitrary: w)
  case (Cons x xs)
  show ?case unfolding convert_all.simps
    by (intro bind_res_preserves [where P = tmp_fresh] convert_keeps_tmp_fresh Cons.IH) (simp_all add: Cons.prems)
qed simp

lemma package_outputs_zip:
  assumes "1 < length ps" "zp = tmp_dir (tmp_next w) @ ''/converted_docs.zip''"
    and "zp \<notin> set ps" "\<forall>p\<in>set ps. files w p \<noteq> None"
  shows "package_outputs ps w =
    (Inr zp, w\<lparr>tmp_next := Suc (tmp_next w),
               files := (files w)(zp \<mapsto> ZipFile (map (\<lambda>p. (basename p, the (files w p))) ps))\<rparr>)"
proof -
  let ?w1 = "w\<lparr>tmp_next := Suc (tmp_next w), files := (files w)(zp \<mapsto> ZipFile [])\<rparr>"
  have j: "join (tmp_dir (tmp_next w)) ''converted_docs.zip'' = zp"
    using assms(2) by (simp add: join_tmp_dir)
  have m: "map (\<lambda>p. (basename p, the (files ?w1 p))) ps = map (\<lambda>p. (basename p, the (files w p))) ps"
    using assms(3) by (intro map_cong) auto
  have z: "zip_write zp [] ps ?w1 =
      (Inr (), ?w1\<lparr>files := (files ?w1)(zp \<mapsto> ZipFile ([] @ map (\<lambda>p. (basename p, the (files ?w1 p))) ps))\<rparr>)"
    using assms(1,3,4) by (intro zip_write_ok) auto
  have z2: "zip_write zp [] ps ?w1 =
      (Inr (), w\<lparr>tmp_next := Suc (tmp_next w),
               files := (files w)(zp \<mapsto> ZipFile (map (\<lambda>p. (basename p, the (files w p))) ps))\<rparr>)"
    unfolding z m by simp
  have w: "write_file zp (ZipFile []) (w\<lparr>tmp_next := Suc (tmp_next w)\<rparr>) = (Inr (), ?w1)"
    by (simp add: write_file_def)
  show ?thesis
    using assms(1) unfolding package_outputs_def
    by (simp add: mkdtemp_def bind_res_def j w z2 ret_def)
qed

lemma convert_all_append:
  "convert_all L (xs @ ys) =
     bind_res (convert_all L xs) (\<lambda>ps. bind_res (convert_all L ys) (\<lambda>qs. ret (ps @ qs)))"
  by (induction xs) (simp_all add: fun_eq_iff bind_res_def ret_def split: prod.splits sum.splits)

lemma convert_all_grows: "dom (files w) \<subseteq> dom (files (snd (convert_all L xs w)))"
proof (induction xs arbitrary: w)
  case (Cons x xs)
  have c: "\<And>s. dom (files s) \<subseteq> dom (files (snd (convert_pdf_to_word L x s)))"
    using convert_world by blast
  show ?case unfolding convert_all.simps
    by (intro bind_res_trans [where R = "\<lambda>w w'. dom (files w) \<subseteq> dom (files w')"] c Cons.IH) auto
qed simp

lemma package_grows: "dom (files w) \<subseteq> dom (files (snd (package_outputs ps w)))"
proof (cases "1 < length ps")
  case True
  then show ?thesis using package_confined [OF True, of w] by simp
next
  case False
  then show ?thesis by (simp add: package_small)
qed

lemma convert_and_enable_grows: "dom (files w) \<subseteq> dom (files (snd (convert_and_enable L xs w)))"
  unfolding convert_and_enable_def
  by (intro bind_res_trans [where R = "\<lambda>w w'. dom (files w) \<subseteq> dom (files w')"]
      convert_all_grows package_grows) auto

text \<open>After a successful batch of several uploads, the archive path in the next
  fresh directory is none of the outputs, so packaging writes the archive of
  all of them.\<close>

lemma package_after_batch:
  assumes conv: "convert_all L pdfs w = (Inr ps, w1)" and many: "1 < length ps"
  shows "package_outputs ps w1 =
    (Inr (tmp_dir (tmp_next w1) @ ''/converted_docs.zip''),
     w1\<lparr>tmp_next := Suc (tmp_next w1),
        files := (files w1)(tmp_dir (tmp_next w1) @ ''/converted_docs.zip'' \<mapsto>
                   ZipFile (map (\<lambda>p. (basename p, the (files w1 p))) ps))\<rparr>)"
proof -
  let ?zp = "tmp_dir (tmp_next w1) @ ''/converted_docs.zip''"
  note paths = convert_all_paths [OF conv]
  have notin: "?zp \<notin> set ps"
  proof
    assume "?zp \<in> set ps"
    then obtain i where i: "i < length ps" "ps ! i = ?zp" by (auto simp: in_set_conv_nth)
    then obtain a where "ps ! i = tmp_dir (tmp_next w + i) @ CHR ''/'' # a" using paths by blast
    with i(2) have "tmp_next w + i = tmp_next w1"
      by (metis append_Cons append_Nil tmp_dir_path_inj)
    with i(1) paths show False by simp
  qed
  show ?thesis using many notin paths by (intro package_outputs_zip) simp_all
qed

lemma package_single:
  "\<not> 1 < length ps \<Longrightarrow> package_outputs ps w1 = (Inr v, w') \<Longrightarrow> ps = [v] \<and> w' = w1"
  by (cases ps) (auto simp: package_outputs_def ret_def raise_def)

lemma package_frame: "fresh_frame w (snd (package_outputs ps w))"
proof (cases "1 < length ps")
  case True
  then show ?thesis using package_confined [OF True, of w] by (fastforce simp: fresh_frame_def)
next
  case False
  then show ?thesis by (simp add: package_small)
qed

lemma convert_and_enable_frame: "fresh_frame w (snd (convert_and_enable L pdfs w))"
proof -
  have r: "fresh_frame s (snd (bind_res (package_outputs ps) (\<lambda>v. ret \<lparr>dl_value = Some v, dl_interactive = True\<rparr>) s))"
    for ps s
    by (rule bind_res_trans [of fresh_frame, OF package_frame _ fresh_frame_trans]) simp
  show ?thesis unfolding convert_and_enable_def
    by (rule bind_res_trans [of fresh_frame, OF convert_all_frame r fresh_frame_trans])
qed

lemma convert_and_enable_result:
  assumes "convert_and_enable L xs w = (Inr b, w')"
  shows "dl_interactive b \<and> (\<exists>p. dl_value b = Some p \<and> files w' p \<noteq> None)"
proof -
  obtain ps w1 v where c: "convert_all L xs w = (Inr ps, w1)" and p: "package_outputs ps w1 = (Inr v, w')"
      and b: "b = \<lparr>dl_value = Some v, dl_interactive = True\<rparr>"
    using assms by (auto simp: convert_and_enable_def bind_res_def ret_def split: prod.splits sum.splits)
  note paths = convert_all_paths [OF c]
  have "files w' v \<noteq> None"
  proof (cases "1 < length ps")
    case True
    note package_after_batch [OF c True]
    with p show ?thesis by auto
  next
    case False
    have "ps = [v] \<and> w' = w1" by (rule package_single [OF False p])
    then show ?thesis using paths by simp
  qed
  with b show ?thesis by simp
qed

text \<open>The value of a successful click lies in a directory created by that click.\<close>

lemma convert_and_enable_fresh_value:
  assumes "convert_and_enable L xs w = (Inr b, w')"
  shows "\<exists>v n a. dl_value b = Some v \<and> tmp_next w \<le> n \<and> v = tmp_dir n @ CHR ''/'' # a"
proof -
  obtain ps w1 v where c: "convert_all L xs w = (Inr ps, w1)" and p: "package_outputs ps w1 = (Inr v, w')"
      and b: "b = \<lparr>dl_value = Some v, dl_interactive = True\<rparr>"
    using assms by (auto simp: convert_and_enable_def bind_res_def ret_def split: prod.splits sum.splits)
  note paths = convert_all_paths [OF c]
  have "\<exists>n a. tmp_next w \<le> n \<and> v = tmp_dir n @ CHR ''/'' # a"
  proof (cases "1 < length ps")
    case True
    then have "v = tmp_dir (tmp_next w1) @ CHR ''/'' # ''converted_docs.zip''"
      using package_after_batch [OF c True] p by simp
    moreover have "tmp_next w \<le> tmp_next w1" using paths by simp
    ultimately show ?thesis by blast
  next
    case False
    have "ps = [v]" using package_single [OF False p] by simp
    then obtain a where "v = tmp_dir (tmp_next w + 0) @ CHR ''/'' # a" using paths by fastforce
    then show ?thesis by auto
  qed
  with b show ?thesis by simp
qed

lemma convert_and_enable_keeps_tmp_fresh:
  assumes "tmp_fresh w"
  shows "tmp_fresh (snd (convert_and_enable L pdfs w))"
  unfolding convert_and_enable_def
  by (intro bind_res_preserves [where P = tmp_fresh] convert_all_fresh package_world) (simp_all add: assms)

subsection \<open>Example batches\<close>

lemma example_base_names:
  "base_name ''/u/a.pdf'' = ''a''" "base_name ''/v/a.pdf'' = ''a''" "base_name ''/u/b.pdf'' = ''b''"
  "base_name ''/up/report.pdf'' = ''report''"
  by (simp_all add: path_eval)

lemma example_tmp_dirs:
  "tmp_dir 0 = ''/tmp/tmp0''" "tmp_dir (Suc 0) = ''/tmp/tmp1''" "tmp_dir (Suc (Suc 0)) = ''/tmp/tmp2''"
  by (simp_all add: tmp_dir_def nat_str.simps digit_chars_def)

lemmas example_eval = convert_run_simps read_input_def example_base_names extract_links_def
  example_tmp_dirs join_def style_tables_def convert_and_enable_def package_outputs_def
  basename_def rfind_def

subsection \<open>Properties of the batch\<close>

text \<open>
  Claim C7: a batch of one upload whose conversion returns \<open>p\<close> enables the download button with value \<open>p\<close>; nothing else is written.
\<close>

theorem convert_and_enable_single:
  assumes "convert_pdf_to_word L pdf w = (Inr p, w1)"
  shows "convert_and_enable L [pdf] w = (Inr \<lparr>dl_value = Some p, dl_interactive = True\<rparr>, w1)"
  using assms by (simp add: convert_and_enable_def package_outputs_def bind_res_def ret_def)

text \<open>
  Claim C6: a batch of several uploads that all convert enables the download
  button on \<open>converted_docs.zip\<close> in a fresh directory, and that archive holds
  every output, in upload order, under its base name.
\<close>

theorem convert_and_enable_zip:
  assumes conv: "convert_all L pdfs w = (Inr ps, w1)" and many: "1 < length pdfs"
  shows "convert_and_enable L pdfs w =
    (Inr \<lparr>dl_value = Some (tmp_dir (tmp_next w + length pdfs) @ ''/converted_docs.zip''),
          dl_interactive = True\<rparr>,
     w1\<lparr>tmp_next := Suc (tmp_next w1),
        files := (files w1)(tmp_dir (tmp_next w + length pdfs) @ ''/converted_docs.zip'' \<mapsto>
                   ZipFile (map (\<lambda>p. (basename p, the (files w1 p))) ps))\<rparr>)"
proof -
  let ?zp = "tmp_dir (tmp_next w + length pdfs) @ ''/converted_docs.zip''"
  note paths = convert_all_paths [OF conv]
  have len: "length ps = length pdfs" and nxt: "tmp_next w1 = tmp_next w + length pdfs"
    using paths by simp_all
  have pk: "package_outputs ps w1 =
    (Inr ?zp, w1\<lparr>tmp_next := Suc (tmp_next w1),
               files := (files w1)(?zp \<mapsto> ZipFile (map (\<lambda>p. (basename p, the (files w1 p))) ps))\<rparr>)"
    using package_after_batch [OF conv] many len nxt by simp
  show ?thesis using conv pk by (simp add: convert_and_enable_def bind_res_def ret_def)
qed

text \<open>
  Claim C17: when the \<open>i\<close>-th upload fails after the earlier ones converted,
  the whole batch fails with that exception, in the state that conversion left;
  no later upload is processed.
\<close>

theorem convert_and_enable_abort:
  assumes "i < length pdfs" and "convert_all L (take i pdfs) w = (Inr ps, w1)"
    and "convert_pdf_to_word L (pdfs ! i) w1 = (Inl e, w2)"
  shows "convert_and_enable L pdfs w = (Inl e, w2)"
proof -
  have split: "take i pdfs @ pdfs ! i # drop (Suc i) pdfs = pdfs"
    using assms(1) by (simp add: id_take_nth_drop [symmetric])
  have "convert_all L (take i pdfs @ pdfs ! i # drop (Suc i) pdfs) w = (Inl e, w2)"
    unfolding convert_all_append using assms(2,3) by (simp add: bind_res_def)
  then have "convert_all L pdfs w = (Inl e, w2)" unfolding split .
  then show ?thesis by (simp add: convert_and_enable_def bind_res_def)
qed

text \<open>
  Claim C16: the outputs of a successful batch are one per upload, pairwise
  distinct even when uploads share a base name, and all exist afterwards.
\<close>

theorem convert_all_distinct_outputs:
  assumes "convert_all L pdfs w = (Inr ps, w')"
  shows "length ps = length pdfs \<and> distinct ps \<and> (\<forall>p\<in>set ps. files w' p \<noteq> None)"
proof -
  note paths = convert_all_paths [OF assms]
  have loc: "\<forall>i<length ps. \<exists>a. ps ! i = tmp_dir (tmp_next w + i) @ CHR ''/'' # a"
    using paths by blast
  have "distinct ps"
  proof (rule distinct_conv_nth [THEN iffD2], intro allI impI)
    fix i j assume ij: "i < length ps" "j < length ps" "i \<noteq> j"
    obtain a b where ab: "ps ! i = tmp_dir (tmp_next w + i) @ CHR ''/'' # a"
        "ps ! j = tmp_dir (tmp_next w + j) @ CHR ''/'' # b"
      using loc ij(1,2) by blast
    show "ps ! i \<noteq> ps ! j"
    proof
      assume "ps ! i = ps ! j"
      with ab have "tmp_next w + i = tmp_next w + j"
        by (metis tmp_dir_path_inj)
      with ij(3) show False by simp
    qed
  qed
  then show ?thesis using paths by blast
qed



text \<open>
  Claim C27: a click on Convert, successful or not, never changes or removes a
  file that existed before it, the uploads included, as long as the directories
  \<open>mkdtemp\<close> will hand out are still empty.
\<close>

theorem convert_and_enable_keeps_files:
  assumes "tmp_fresh w" and "files w q \<noteq> None"
  shows "files (snd (convert_and_enable L pdfs w)) q = files w q"
  using fresh_frame_keeps [OF assms(1) convert_and_enable_frame assms(2)] .

subsection \<open>Witnesses\<close>

theorem convert_and_enable_single_witness:
  "\<exists>w'. convert_and_enable \<lparr>lib_convert = (\<lambda>_. Inr \<lparr>body = []\<rparr>), lib_pages = (\<lambda>_. Inr [])\<rparr>
      [PathIn ''/up/report.pdf''] \<lparr>files = [''/up/report.pdf'' \<mapsto> RawFile []], tmp_next = 0\<rparr> =
      (Inr \<lparr>dl_value = Some ''/tmp/tmp0/report.docx'', dl_interactive = True\<rparr>, w')"
proof -
  obtain w1 where c: "convert_pdf_to_word \<lparr>lib_convert = (\<lambda>_. Inr \<lparr>body = []\<rparr>), lib_pages = (\<lambda>_. Inr [])\<rparr>
      (PathIn ''/up/report.pdf'') \<lparr>files = [''/up/report.pdf'' \<mapsto> RawFile []], tmp_next = 0\<rparr> =
      (Inr ''/tmp/tmp0/report.docx'', w1)"
    by (atomize_elim) (simp add: example_eval)
  show ?thesis using convert_and_enable_single [OF c] by blast
qed

theorem convert_and_enable_zip_witness:
  "\<exists>w'. convert_and_enable \<lparr>lib_convert = (\<lambda>_. Inr \<lparr>body = []\<rparr>), lib_pages = (\<lambda>_. Inr [])\<rparr>
      [PathIn ''/u/a.pdf'', PathIn ''/u/b.pdf'']
      \<lparr>files = [''/u/a.pdf'' \<mapsto> RawFile [], ''/u/b.pdf'' \<mapsto> RawFile []], tmp_next = 0\<rparr> =
      (Inr \<lparr>dl_value = Some ''/tmp/tmp2/converted_docs.zip'', dl_interactive = True\<rparr>, w') \<and>
    files w' ''/tmp/tmp2/converted_docs.zip'' =
      Some (ZipFile [(''a.docx'', DocxFile \<lparr>body = []\<rparr>), (''b.docx'', DocxFile \<lparr>body = []\<rparr>)])"
proof -
  obtain w1 where c: "convert_all \<lparr>lib_convert = (\<lambda>_. Inr \<lparr>body = []\<rparr>), lib_pages = (\<lambda>_. Inr [])\<rparr>
      [PathIn ''/u/a.pdf'', PathIn ''/u/b.pdf'']
      \<lparr>files = [''/u/a.pdf'' \<mapsto> RawFile [], ''/u/b.pdf'' \<mapsto> RawFile []], tmp_next = 0\<rparr> =
      (Inr [''/tmp/tmp0/a.docx'', ''/tmp/tmp1/b.docx''], w1)"
    and f: "files w1 ''/tmp/tmp0/a.docx'' = Some (DocxFile \<lparr>body = []\<rparr>)"
      "files w1 ''/tmp/tmp1/b.docx'' = Some (DocxFile \<lparr>body = []\<rparr>)"
    by (atomize_elim) (simp add: example_eval)
  show ?thesis
    using convert_and_enable_zip [OF c] f by (simp add: example_tmp_dirs basename_def rfind_def)
qed

theorem convert_and_enable_abort_witness:
  "fst (convert_and_enable \<lparr>lib_convert = (\<lambda>_. Inr \<lparr>body = []\<rparr>), lib_pages = (\<lambda>_. Inr [])\<rparr>
      [OtherIn, PathIn ''/u/a.pdf''] \<lparr>files = [''/u/a.pdf'' \<mapsto> RawFile []], tmp_next = 0\<rparr>) =
   Inl (ValueError ''Unsupported input type'')"
proof -
  have t: "convert_all \<lparr>lib_convert = (\<lambda>_. Inr \<lparr>body = []\<rparr>), lib_pages = (\<lambda>_. Inr [])\<rparr>
      (take 0 [OtherIn, PathIn ''/u/a.pdf'']) \<lparr>files = [''/u/a.pdf'' \<mapsto> RawFile []], tmp_next = 0\<rparr> =
      (Inr [], \<lparr>files = [''/u/a.pdf'' \<mapsto> RawFile []], tmp_next = 0\<rparr>)"
    by (simp add: ret_def)
  have c: "convert_pdf_to_word \<lparr>lib_convert = (\<lambda>_. Inr \<lparr>body = []\<rparr>), lib_pages = (\<lambda>_. Inr [])\<rparr>
      ([OtherIn, PathIn ''/u/a.pdf''] ! 0) \<lparr>files = [''/u/a.pdf'' \<mapsto> RawFile []], tmp_next = 0\<rparr> =
      (Inl (ValueError ''Unsupported input type''), \<lparr>files = [''/u/a.pdf'' \<mapsto> RawFile []], tmp_next = 1\<rparr>)"
    by (simp add: example_eval)
  show ?thesis using convert_and_enable_abort [OF _ t c] by simp
qed

theorem convert_all_distinct_outputs_witness:
  "\<exists>w'. convert_all \<lparr>lib_convert = (\<lambda>_. Inr \<lparr>body = []\<rparr>), lib_pages = (\<lambda>_. Inr [])\<rparr>
      [PathIn ''/u/a.pdf'', PathIn ''/v/a.pdf'']
      \<lparr>files = [''/u/a.pdf'' \<mapsto> RawFile [], ''/v/a.pdf'' \<mapsto> RawFile []], tmp_next = 0\<rparr> =
      (Inr [''/tmp/tmp0/a.docx'', ''/tmp/tmp1/a.docx''], w') \<and>
    files w' ''/tmp/tmp0/a.docx'' \<noteq> None \<and> files w' ''/tmp/tmp1/a.docx'' \<noteq> None"
proof -
  obtain w1 where c: "convert_all \<lparr>lib_convert = (\<lambda>_. Inr \<lparr>body = []\<rparr>), lib_pages = (\<lambda>_. Inr [])\<rparr>
      [PathIn ''/u/a.pdf'', PathIn ''/v/a.pdf'']
      \<lparr>files = [''/u/a.pdf'' \<mapsto> RawFile [], ''/v/a.pdf'' \<mapsto> RawFile []], tmp_next = 0\<rparr> =
      (Inr [''/tmp/tmp0/a.docx'', ''/tmp/tmp1/a.docx''], w1)"
    by (atomize_elim) (simp add: example_eval)
  show ?thesis using convert_all_distinct_outputs [OF c] c by auto
qed




theorem convert_and_enable_keeps_files_witness:
  "files (snd (convert_and_enable \<lparr>lib_convert = (\<lambda>_. Inr \<lparr>body = []\<rparr>), lib_pages = (\<lambda>_. Inr [])\<rparr>
      [PathIn ''/up/report.pdf'', OtherIn] \<lparr>files = [''/up/report.pdf'' \<mapsto> RawFile []], tmp_next = 0\<rparr>))
     ''/up/report.pdf'' = Some (RawFile [])"
proof -
  have "tmp_fresh \<lparr>files = [''/up/report.pdf'' \<mapsto> RawFile []], tmp_next = 0\<rparr>"
    by (simp add: tmp_fresh_def tmp_dir_def)
  then show ?thesis
    using convert_and_enable_keeps_files [of _ "''/up/report.pdf''"] by simp
qed

end
