(* ===== verification/Ui.thy ===== *)
theory Ui
  imports Batch
begin

text \<open>
  The Gradio wiring of \<open>src/app.py\<close> (lines 117--155) as a state machine. Its
  state is the current upload list of \<open>gr.Files\<close> (\<open>None\<close> after a clear is
  the empty list), the download button, and the world the handlers act on. The
  button starts with no value and disabled (lines 135--141). Every change of the
  uploads runs \<open>reset_download\<close> (lines 144--148); a click on Convert runs
  \<open>convert_and_enable\<close> on the current uploads (lines 151--155): on success
  its update replaces the button, on an exception Gradio reports the error and
  leaves the button as it was, while the files written before the exception
  stay. The user chooses the events, so the steps form a relation. The lemmas
  prove the button invariant on reachable states by rule induction, show that a
  second successful click moves the button to a new file, and that a download
  can always be obtained.
\<close>

record ui_state =
  uploads :: "pdf_input list"
  download :: button
  world :: world

definition ui_init :: "world \<Rightarrow> ui_state" where
  "ui_init w = \<lparr>uploads = [], download = \<lparr>dl_value = None, dl_interactive = False\<rparr>, world = w\<rparr>"

inductive ui_step :: "libs \<Rightarrow> ui_state \<Rightarrow> ui_state \<Rightarrow> bool" where
  change: "ui_step L u (u\<lparr>uploads := pdfs, download := reset_download\<rparr>)"
| click_ok: "convert_and_enable L (uploads u) (world u) = (Inr b, w') \<Longrightarrow>
    ui_step L u (u\<lparr>download := b, world := w'\<rparr>)"
| click_error: "convert_and_enable L (uploads u) (world u) = (Inl e, w') \<Longrightarrow>
    ui_step L u (u\<lparr>world := w'\<rparr>)"

inductive ui_reachable :: "libs \<Rightarrow> ui_state \<Rightarrow> bool" where
  start: "tmp_fresh w \<Longrightarrow> ui_reachable L (ui_init w)"
| step: "ui_reachable L u \<Longrightarrow> ui_step L u v \<Longrightarrow> ui_reachable L v"

text \<open>The invariant: the button is enabled exactly when it has a value, the
  value names an existing file, and the temporary directories stay fresh.\<close>

definition ui_inv :: "ui_state \<Rightarrow> bool" where
  "ui_inv u \<longleftrightarrow>
     (dl_interactive (download u) \<longleftrightarrow> dl_value (download u) \<noteq> None) \<and>
     (\<forall>p. dl_value (download u) = Some p \<longrightarrow> files (world u) p \<noteq> None) \<and>
     tmp_fresh (world u)"

inductive_cases ui_step_cases: "ui_step L u v"

lemma ui_inv_init: "tmp_fresh w \<Longrightarrow> ui_inv (ui_init w)"
  by (simp add: ui_inv_def ui_init_def)

lemma ui_step_inv: "ui_step L u v \<Longrightarrow> ui_inv u \<Longrightarrow> ui_inv v"
proof (induction rule: ui_step.induct)
  case (change L u pdfs)
  then show ?case by (simp add: ui_inv_def reset_download_def)
next
  case (click_ok L u b w')
  have r: "dl_interactive b \<and> (\<exists>p. dl_value b = Some p \<and> files w' p \<noteq> None)"
    using convert_and_enable_result [OF click_ok.hyps] .
  have f: "tmp_fresh w'"
    using convert_and_enable_keeps_tmp_fresh [of "world u" L "uploads u"] click_ok by (simp add: ui_inv_def)
  from r f show ?case by (auto simp: ui_inv_def)
next
  case (click_error L u e w')
  have g: "dom (files (world u)) \<subseteq> dom (files w')"
    using convert_and_enable_grows [of "world u" L "uploads u"] click_error.hyps by simp
  have f: "tmp_fresh w'"
    using convert_and_enable_keeps_tmp_fresh [of "world u" L "uploads u"] click_error by (simp add: ui_inv_def)
  from click_error.prems g f show ?case by (auto simp: ui_inv_def)
qed

lemma ui_reachable_inv: "ui_reachable L u \<Longrightarrow> ui_inv u"
  by (induction rule: ui_reachable.induct) (auto intro: ui_inv_init ui_step_inv)


subsection \<open>Example runs\<close>

lemma example_report_run:
  "\<exists>w1. convert_and_enable \<lparr>lib_convert = (\<lambda>_. Inr \<lparr>body = []\<rparr>), lib_pages = (\<lambda>_. Inr [])\<rparr>
      [PathIn ''/up/report.pdf''] \<lparr>files = [''/up/report.pdf'' \<mapsto> RawFile []], tmp_next = 0\<rparr> =
      (Inr \<lparr>dl_value = Some ''/tmp/tmp0/report.docx'', dl_interactive = True\<rparr>, w1) \<and>
    files w1 ''/up/report.pdf'' = Some (RawFile []) \<and> tmp_next w1 = Suc 0"
  by (simp add: example_eval)

lemma example_report_again:
  assumes "files w1 ''/up/report.pdf'' = Some (RawFile [])" "tmp_next w1 = Suc 0"
  shows "\<exists>w2. convert_and_enable \<lparr>lib_convert = (\<lambda>_. Inr \<lparr>body = []\<rparr>), lib_pages = (\<lambda>_. Inr [])\<rparr>
      [PathIn ''/up/report.pdf''] w1 =
      (Inr \<lparr>dl_value = Some ''/tmp/tmp1/report.docx'', dl_interactive = True\<rparr>, w2)"
  using assms by (simp add: example_eval)

text \<open>Uploading \<open>report.pdf\<close> and clicking Convert reaches a state whose
  button offers \<open>/tmp/tmp0/report.docx\<close>.\<close>

lemma example_report_reachable:
  "\<exists>u. ui_reachable \<lparr>lib_convert = (\<lambda>_. Inr \<lparr>body = []\<rparr>), lib_pages = (\<lambda>_. Inr [])\<rparr> u \<and>
     uploads u = [PathIn ''/up/report.pdf''] \<and>
     download u = \<lparr>dl_value = Some ''/tmp/tmp0/report.docx'', dl_interactive = True\<rparr> \<and>
     files (world u) ''/up/report.pdf'' = Some (RawFile []) \<and> tmp_next (world u) = Suc 0"
proof -
  let ?L = "\<lparr>lib_convert = (\<lambda>_. Inr \<lparr>body = []\<rparr>), lib_pages = (\<lambda>_. Inr [])\<rparr>"
  let ?w0 = "\<lparr>files = [''/up/report.pdf'' \<mapsto> RawFile []], tmp_next = 0\<rparr>"
  let ?u1 = "(ui_init ?w0)\<lparr>uploads := [PathIn ''/up/report.pdf''], download := reset_download\<rparr>"
  obtain w1 where run: "convert_and_enable ?L [PathIn ''/up/report.pdf''] ?w0 =
      (Inr \<lparr>dl_value = Some ''/tmp/tmp0/report.docx'', dl_interactive = True\<rparr>, w1)"
    and w1: "files w1 ''/up/report.pdf'' = Some (RawFile [])" "tmp_next w1 = Suc 0"
    using example_report_run by blast
  have r0: "ui_reachable ?L (ui_init ?w0)"
    by (rule ui_reachable.start) (simp add: tmp_fresh_def tmp_dir_def)
  have r1: "ui_reachable ?L ?u1"
    by (rule ui_reachable.step [OF r0 ui_step.change])
  let ?u2 = "?u1\<lparr>download := \<lparr>dl_value = Some ''/tmp/tmp0/report.docx'', dl_interactive = True\<rparr>,
                 world := w1\<rparr>"
  have s2: "ui_step ?L ?u1 ?u2"
    by (rule ui_step.click_ok) (simp add: ui_init_def run)
  from r1 s2 have r2: "ui_reachable ?L ?u2"
    by (rule ui_reachable.step)
  show ?thesis
  proof (rule exI [of _ ?u2], intro conjI)
    show "ui_reachable ?L ?u2" by (rule r2)
  qed (simp_all add: w1 ui_init_def)
qed

subsection \<open>Properties of the interface\<close>

text \<open>
  Claim C8: in every reachable state the download button is enabled exactly
  when it has a value, and that value names a file that exists.
\<close>

theorem ui_download_valid:
  assumes "ui_reachable L u"
  shows "(dl_interactive (download u) \<longleftrightarrow> dl_value (download u) \<noteq> None) \<and>
         (\<forall>p. dl_value (download u) = Some p \<longrightarrow> files (world u) p \<noteq> None)"
  using ui_reachable_inv [OF assms] by (simp add: ui_inv_def)

text \<open>
  Claim C18: changing the uploads resets the download button to no value and
  disabled; no other event changes the uploads.
\<close>

theorem ui_change_resets:
  assumes "ui_step L u v" and "uploads v \<noteq> uploads u"
  shows "download v = \<lparr>dl_value = None, dl_interactive = False\<rparr>"
  using assms by (induction rule: ui_step.induct) (simp_all add: reset_download_def)

text \<open>
  Claim C10: from any state of the interface, uploading a PDF stream named
  \<open>report.pdf\<close> whose contents both libraries accept and clicking Convert
  enables the download button: the user can always obtain a download.
\<close>

theorem ui_can_enable:
  assumes conv: "lib_convert L (RawFile []) = Inr cdoc" and pages: "lib_pages L (RawFile []) = Inr ps"
  shows "\<exists>v v'. ui_step L u v \<and> ui_step L v v' \<and>
           uploads v' = [Stream (RawFile []) (Some ''report.pdf'')] \<and> dl_interactive (download v')"
proof -
  let ?x = "Stream (RawFile []) (Some ''report.pdf'')"
  let ?v = "u\<lparr>uploads := [?x], download := reset_download\<rparr>"
  have b: "base_name ''report.pdf'' = ''report''" by (simp add: path_eval)
  obtain b w' where run: "convert_and_enable L [?x] (world u) = (Inr b, w')" and en: "dl_interactive b"
    by (atomize_elim)
      (simp add: convert_run_simps read_input_def b conv pages convert_and_enable_def package_outputs_def)
  have s1: "ui_step L u ?v" by (rule ui_step.change)
  have s2: "ui_step L ?v (?v\<lparr>download := b, world := w'\<rparr>)"
    by (rule ui_step.click_ok) (simp add: run)
  show ?thesis using s1 s2 en by (intro exI [of _ ?v] exI [of _ "?v\<lparr>download := b, world := w'\<rparr>"]) simp
qed

text \<open>
  Claim C28: a successful click while the button already offers a file moves it
  to another, newly written file: every click converts afresh into new
  directories, so the button goes from one enabled path to another, a
  transition the specification's download control does not have.
\<close>

theorem ui_click_moves_download:
  assumes "ui_reachable L u" and "dl_value (download u) = Some p"
    and "convert_and_enable L (uploads u) (world u) = (Inr b, w')"
  shows "ui_step L u (u\<lparr>download := b, world := w'\<rparr>) \<and> dl_interactive b \<and>
         (\<exists>q. dl_value b = Some q \<and> q \<noteq> p \<and> files w' q \<noteq> None)"
proof -
  have inv: "files (world u) p \<noteq> None" "tmp_fresh (world u)"
    using ui_reachable_inv [OF assms(1)] assms(2) by (auto simp: ui_inv_def)
  obtain q n a where q: "dl_value b = Some q" "tmp_next (world u) \<le> n" "q = tmp_dir n @ CHR ''/'' # a"
    using convert_and_enable_fresh_value [OF assms(3)] by blast
  have "files (world u) q = None" using inv(2) q(2,3) by (simp add: tmp_fresh_def)
  with inv(1) have "q \<noteq> p" by auto
  moreover have "dl_interactive b \<and> files w' q \<noteq> None"
    using convert_and_enable_result [OF assms(3)] q(1) by auto
  moreover have "ui_step L u (u\<lparr>download := b, world := w'\<rparr>)"
    by (rule ui_step.click_ok [OF assms(3)])
  ultimately show ?thesis using q(1) by blast
qed

subsection \<open>Witnesses\<close>

theorem ui_download_valid_witness:
  "\<exists>u. ui_reachable \<lparr>lib_convert = (\<lambda>_. Inr \<lparr>body = []\<rparr>), lib_pages = (\<lambda>_. Inr [])\<rparr> u \<and>
     dl_interactive (download u) \<and> files (world u) ''/tmp/tmp0/report.docx'' \<noteq> None"
proof -
  obtain u where r: "ui_reachable \<lparr>lib_convert = (\<lambda>_. Inr \<lparr>body = []\<rparr>), lib_pages = (\<lambda>_. Inr [])\<rparr> u"
    and dl: "download u = \<lparr>dl_value = Some ''/tmp/tmp0/report.docx'', dl_interactive = True\<rparr>"
    using example_report_reachable by blast
  show ?thesis
    using r dl ui_download_valid [OF r] by (intro exI [of _ u]) simp
qed

theorem ui_change_resets_witness:
  "download ((ui_init \<lparr>files = Map.empty, tmp_next = 0\<rparr>)\<lparr>uploads := [PathIn ''/up/report.pdf''],
      download := reset_download\<rparr>) = \<lparr>dl_value = None, dl_interactive = False\<rparr>"
  using ui_change_resets [OF ui_step.change [of "\<lparr>lib_convert = (\<lambda>_. Inr \<lparr>body = []\<rparr>), lib_pages = (\<lambda>_. Inr [])\<rparr>"
      "ui_init \<lparr>files = Map.empty, tmp_next = 0\<rparr>" "[PathIn ''/up/report.pdf'']"]]
  by (simp add: ui_init_def)


theorem ui_can_enable_witness:
  "\<exists>v v'. ui_step \<lparr>lib_convert = (\<lambda>_. Inr \<lparr>body = []\<rparr>), lib_pages = (\<lambda>_. Inr [])\<rparr>
             (ui_init \<lparr>files = Map.empty, tmp_next = 0\<rparr>) v \<and>
           ui_step \<lparr>lib_convert = (\<lambda>_. Inr \<lparr>body = []\<rparr>), lib_pages = (\<lambda>_. Inr [])\<rparr> v v' \<and>
           uploads v' = [Stream (RawFile []) (Some ''report.pdf'')] \<and> dl_interactive (download v')"
  using ui_can_enable [of "\<lparr>lib_convert = (\<lambda>_. Inr \<lparr>body = []\<rparr>), lib_pages = (\<lambda>_. Inr [])\<rparr>"
      "\<lparr>body = []\<rparr>" "[]" "ui_init \<lparr>files = Map.empty, tmp_next = 0\<rparr>"]
  by simp


theorem ui_click_moves_download_witness:
  "\<exists>u b w'. ui_reachable \<lparr>lib_convert = (\<lambda>_. Inr \<lparr>body = []\<rparr>), lib_pages = (\<lambda>_. Inr [])\<rparr> u \<and>
     dl_value (download u) = Some ''/tmp/tmp0/report.docx'' \<and>
     convert_and_enable \<lparr>lib_convert = (\<lambda>_. Inr \<lparr>body = []\<rparr>), lib_pages = (\<lambda>_. Inr [])\<rparr>
       (uploads u) (world u) = (Inr b, w') \<and>
     dl_interactive b \<and> dl_value b \<noteq> Some ''/tmp/tmp0/report.docx''"
proof -
  let ?L = "\<lparr>lib_convert = (\<lambda>_. Inr \<lparr>body = []\<rparr>), lib_pages = (\<lambda>_. Inr [])\<rparr>"
  obtain u where r: "ui_reachable ?L u" and up: "uploads u = [PathIn ''/up/report.pdf'']"
    and dl: "download u = \<lparr>dl_value = Some ''/tmp/tmp0/report.docx'', dl_interactive = True\<rparr>"
    and w: "files (world u) ''/up/report.pdf'' = Some (RawFile [])" "tmp_next (world u) = Suc 0"
    using example_report_reachable by blast
  obtain b w2 where run: "convert_and_enable ?L (uploads u) (world u) = (Inr b, w2)"
    using example_report_again [OF w] up by auto
  have "dl_value (download u) = Some ''/tmp/tmp0/report.docx''" using dl by simp
  note m = ui_click_moves_download [OF r this run]
  show ?thesis using r dl run m by (intro exI [of _ u] exI [of _ b] exI [of _ w2]) auto
qed

end
