(* ===== verification/Spec2Isabelle.thy ===== *)
theory Spec2Isabelle
  imports Ui
begin

text \<open>
  A verification library for \<open>src/app.py\<close> of the pdf-to-docx repository, a
  Gradio application that converts uploaded PDFs to Word documents, appends the
  hyperlinks found in each PDF on a new page, and zips several outputs.

  \<^bold>\<open>Program and model.\<close> The program is one Python file. Its parts, and the
  theory that models each (every definition is mapped to its lines in the
  project manifest):
  \<^item> \<open>Prelude\<close>: the exceptions (\<open>py_error\<close>), the exception-propagating
    sequencing of stateful steps (\<open>bind_res\<close>, \<open>ret\<close>, \<open>raise\<close>) with the
    generic lemmas \<open>bind_res_trans\<close> and \<open>bind_res_preserves\<close> that carry
    frame and invariant arguments through a sequence, the decimal names of
    temporary directories, and shared list lemmas.
  \<^item> \<open>PyLib\<close>: the standard-library functions the code calls, written after
    CPython: \<open>str.rstrip\<close>, \<open>str.rfind\<close>, \<open>os.path.basename\<close>,
    \<open>os.path.splitext\<close> (with its leading-dot loop) and \<open>os.path.join\<close>.
  \<^item> \<open>UrlScan\<close>: \<open>URL_PATTERN\<close> (line 9) and \<open>findall\<close> (line 62) as a
    left-to-right scan (\<open>match_at\<close>, \<open>findall\<close>, a \<open>function\<close> whose
    termination is proved with the length of the remaining text).
  \<^item> \<open>Links\<close>: the link extractor, step 5 of \<open>convert_pdf_to_word\<close>
    (lines 51--66), over the pages as the loop reads them (annotation URIs and
    page text), with the reference specification \<open>link_candidates\<close>.
  \<^item> \<open>Docx\<close>: the document as python-docx edits it (blocks, and tables
    with a style whose cells hold blocks, so tables can be nested), the table
    styling of step 4 over \<open>doc.tables\<close> (the tables of the body) and the
    link page of step 6.
  \<^item> \<open>Convert\<close>: \<open>convert_pdf_to_word\<close> (lines 11--84) on an explicit
    world (a file map and the \<open>mkdtemp\<close> counter); one definition per step,
    the two conversion libraries as parameters (\<open>libs\<close>).
  \<^item> \<open>Batch\<close>: \<open>convert_and_enable\<close> (lines 86--102): the conversions in
    order (\<open>convert_all\<close>, stopping at the first exception), and
    \<open>package_outputs\<close>, which zips several outputs into a fresh directory
    (\<open>zip_write\<close>) or returns \<open>out_paths[0]\<close>; \<open>reset_download\<close>
    (lines 104--108); the result is the button update (\<open>button\<close>).
  \<^item> \<open>Ui\<close>: the Gradio wiring (lines 117--155) as the inductive relation
    \<open>ui_step\<close> on the uploads, the download button and the world, with the
    events change (runs \<open>reset_download\<close>) and click (runs
    \<open>convert_and_enable\<close>; an exception leaves the button), and the reachable
    states \<open>ui_reachable\<close>. Gradio's \<open>None\<close> for a cleared upload is the
    empty list, and the upload event does not add files to the world.

  \<^bold>\<open>What is proved.\<close>
  \<^item> The scan is the leftmost-longest match of the pattern, finds nothing
    exactly when no URL-shaped text is present, and reports at most one URL per
    eight characters.
  \<^item> The extraction loop computes the first occurrences of the stripped
    candidates (an equivalence with a reference built from \<open>remdups\<close>), so
    each URL is listed once and no link ends with a stripped character.
  \<^item> A conversion returns \<open><workdir>/<base>.docx\<close> holding the styled
    document and the link page exactly when there are links; every table of
    an output's \<open>doc.tables\<close> is styled, while tables nested in cells keep the
    converter's style; the output's base name round-trips to the upload's
    exactly when that name has a non-dot character; every exception path
    (unsupported input, missing file, library failure) is a value; a conversion
    writes only inside its fresh working directory.
  \<^item> A batch of one returns that output; a batch of several returns
    \<open>converted_docs.zip\<close> in a fresh directory holding every output in
    upload order; outputs are pairwise distinct; an exception aborts the batch;
    a click, successful or not,
    never changes a file that existed before it (\<open>fresh_frame\<close>). Across
    components, what a click offers is a document whose \<open>doc.tables\<close> are
    styled, or an archive of one such document per upload.
  \<^item> In every reachable state of the interface the download button is enabled
    exactly when it has a value, and that file exists (an invariant proved by
    rule induction); a second successful click moves the button to a new file;
    a download can always be obtained.

  \<^bold>\<open>Bounds and fuel.\<close> No fuel is used: every loop of the program runs over
  a finite list, and the two loops that are not structural (the regex scan and
  the leading-dot loop of \<open>splitext\<close>) are \<open>function\<close>s with measures.
  Python integers are unbounded; the directory counter is a \<open>nat\<close>.

  \<^bold>\<open>Findings.\<close> An upload whose base name is \<open>output\<close>, and every stream
  without a name (defaulted to \<open>output.pdf\<close>), fails with
  \<open>SameFileError\<close>, because its final path is the temporary
  \<open>output.docx\<close>. An annotation URI made only of stripped characters gives the
  empty link. Tables nested in cells are not styled, although the
  specification has every table styled. A second click moves an enabled
  button to a new path, a transition the specification's control does not
  have. Archive entries are named by base name only, so two uploads with the
  same file name give two entries of the same name. The pattern keeps opening
  brackets inside a URL. Clicking Convert with no upload raises an exception
  (\<open>IndexError\<close> on the empty list of the model; Gradio passes \<open>None\<close>,
  which raises \<open>TypeError\<close>).

  \<^bold>\<open>Not modelled.\<close> The layout conversion of pdf2docx and the PDF parsing
  of PyMuPDF (parameters of the model: any function from file contents to a
  document, or to pages, or to an exception), the Gradio rendering, the CSS and
  the launch (lines 110--141, 157--160: presentation only), and byte-level file
  formats (a file is a raw byte list, a document, or a list of archive
  entries). Characters are the code points U+0000..U+00FF.
\<close>

section \<open>Properties across the components\<close>

text \<open>
  Claim C26: whatever a successful click on Convert offers for download is a
  Word document every table of whose \<open>doc.tables\<close> (the tables of the body)
  has the style \<open>Table Grid\<close>, or an archive with one entry per upload, each
  such a document: the link extractor, the
  document edits, one conversion and the batch compose to this guarantee.
\<close>

theorem download_styled:
  assumes "convert_and_enable L pdfs w = (Inr b, w')"
  shows "\<exists>p. dl_value b = Some p \<and>
           ((\<exists>doc. files w' p = Some (DocxFile doc) \<and> doc_tables_styled doc) \<or>
            (\<exists>es. files w' p = Some (ZipFile es) \<and> length es = length pdfs \<and>
                  (\<forall>e\<in>set es. \<exists>doc. snd e = DocxFile doc \<and> doc_tables_styled doc)))"
proof -
  obtain ps w1 v where c: "convert_all L pdfs w = (Inr ps, w1)"
      and p: "package_outputs ps w1 = (Inr v, w')"
      and b: "b = \<lparr>dl_value = Some v, dl_interactive = True\<rparr>"
    using assms by (auto simp: convert_and_enable_def bind_res_def ret_def split: prod.splits sum.splits)
  have st: "\<forall>q\<in>set ps. \<exists>doc. files w1 q = Some (DocxFile doc) \<and> doc_tables_styled doc"
    using convert_all_styled [OF c] .
  have len: "length ps = length pdfs" using convert_all_paths [OF c] by simp
  show ?thesis
  proof (cases "1 < length ps")
    case True
    have v: "files w' v = Some (ZipFile (map (\<lambda>q. (basename q, the (files w1 q))) ps))"
      using package_after_batch [OF c True] p by auto
    have "\<forall>e\<in>set (map (\<lambda>q. (basename q, the (files w1 q))) ps).
            \<exists>doc. snd e = DocxFile doc \<and> doc_tables_styled doc"
      using st by auto
    with v len b show ?thesis by auto
  next
    case False
    then have "ps = [v] \<and> w' = w1" by (rule package_single [OF _ p])
    with st b show ?thesis by auto
  qed
qed

subsection \<open>Witnesses\<close>

theorem download_styled_witness:
  "\<exists>w' p. convert_and_enable
        \<lparr>lib_convert = (\<lambda>_. Inr \<lparr>body = [Table None [[[Paragraph ''x'']]]]\<rparr>), lib_pages = (\<lambda>_. Inr [])\<rparr>
        [PathIn ''/u/a.pdf'', PathIn ''/u/b.pdf'']
        \<lparr>files = [''/u/a.pdf'' \<mapsto> RawFile [], ''/u/b.pdf'' \<mapsto> RawFile []], tmp_next = 0\<rparr> =
      (Inr \<lparr>dl_value = Some p, dl_interactive = True\<rparr>, w') \<and>
      ((\<exists>doc. files w' p = Some (DocxFile doc) \<and> doc_tables_styled doc) \<or>
       (\<exists>es. files w' p = Some (ZipFile es) \<and> length es = 2 \<and>
             (\<forall>e\<in>set es. \<exists>doc. snd e = DocxFile doc \<and> doc_tables_styled doc)))"
proof -
  obtain w' where c: "convert_and_enable
        \<lparr>lib_convert = (\<lambda>_. Inr \<lparr>body = [Table None [[[Paragraph ''x'']]]]\<rparr>), lib_pages = (\<lambda>_. Inr [])\<rparr>
        [PathIn ''/u/a.pdf'', PathIn ''/u/b.pdf'']
        \<lparr>files = [''/u/a.pdf'' \<mapsto> RawFile [], ''/u/b.pdf'' \<mapsto> RawFile []], tmp_next = 0\<rparr> =
      (Inr \<lparr>dl_value = Some ''/tmp/tmp2/converted_docs.zip'', dl_interactive = True\<rparr>, w')"
    by (atomize_elim) (simp add: example_eval)
  show ?thesis using download_styled [OF c] c by auto
qed

end
